theory Spec2Isabelle
  imports Main "HOL-Library.Word" "HOL-Library.Sublist"
begin

section \<open>Strings and records\<close>

text \<open>
  A JavaScript string is a sequence of 16-bit UTF-16 code units; \<open>===\<close> on strings,
  \<open>startsWith\<close> and a regular expression without the \<open>u\<close> flag all work on code
  units.  \<open>js\<close> writes an ASCII literal of the source as such a sequence.
\<close>

type_synonym code_unit = "16 word"
type_synonym jsstring = "code_unit list"

definition js :: "string \<Rightarrow> jsstring" where
  "js s = map of_char s"

text \<open>
  A country record of \<open>CountriesData.json\<close>.  Filtering and lookup read the fields
  \<open>name\<close> and \<open>region\<close> only; the remaining fields of an object (\<open>population\<close>,
  \<open>capital\<close>, \<open>flag\<close>) live in the extension slot of the record scheme, so every
  function below works on objects with any further fields.
\<close>

record country =
  name :: jsstring
  region :: jsstring

section \<open>Lookup (details.js)\<close>

text \<open>
  \<open>Array.prototype.find\<close> returns the first element the callback accepts and
  \<open>undefined\<close> when there is none.  The result of a lookup is a record or one of
  JavaScript's two empty values.
\<close>

datatype 'a lookup = Found 'a | Undefined | Null

fun array_find :: "('a \<Rightarrow> bool) \<Rightarrow> 'a list \<Rightarrow> 'a lookup" where
  "array_find p [] = Undefined"
| "array_find p (x # xs) = (if p x then Found x else array_find p xs)"

text \<open>\<open>countries.find((country) => country.name === name)\<close>\<close>

definition findCountryByName :: "'a country_scheme list \<Rightarrow> jsstring \<Rightarrow> 'a country_scheme lookup" where
  "findCountryByName countries n = array_find (\<lambda>country. name country = n) countries"

text \<open>
  The second variant of the details script: \<open>countries.find(...) || null\<close>.  A record is
  an object and so truthy; \<open>undefined\<close> is falsy and is replaced by \<open>null\<close>.
\<close>

definition findCountryByName_null :: "'a country_scheme list \<Rightarrow> jsstring \<Rightarrow> 'a country_scheme lookup" where
  "findCountryByName_null countries n =
     (case array_find (\<lambda>country. name country = n) countries of
        Found c \<Rightarrow> Found c
      | Undefined \<Rightarrow> Null
      | Null \<Rightarrow> Null)"

section \<open>Text normalisation and filtering (index.js)\<close>

text \<open>
  \<open>normalize\<close> (here \<open>normalize_str\<close>) chains three operations, two of which are built-ins of the JavaScript
  engine: \<open>String.prototype.normalize("NFD")\<close> and \<open>String.prototype.toLowerCase\<close>.
  They are parameters of the model, bundled in a record; the general theorems hold for
  every engine, or for every engine that follows the Unicode Standard where they say so.
\<close>

record platform =
  normalizeNFD :: "jsstring \<Rightarrow> jsstring"
  toLowerCase :: "jsstring \<Rightarrow> jsstring"

text \<open>The character class of the regular expression: the code units U+0300 to U+036F.\<close>

definition combiningMark :: "code_unit \<Rightarrow> bool" where
  "combiningMark c \<longleftrightarrow> 0x0300 \<le> c \<and> c \<le> 0x036F"

text \<open>\<open>.replace(/[U+0300-U+036F]/g, "")\<close>: every match of the class is deleted.\<close>

definition stripCombiningMarks :: "jsstring \<Rightarrow> jsstring" where
  "stripCombiningMarks str = filter (\<lambda>c. \<not> combiningMark c) str"

text \<open>\<open>str.normalize("NFD").replace(/[U+0300-U+036F]/g, "").toLowerCase()\<close>\<close>

definition normalize_str :: "platform \<Rightarrow> jsstring \<Rightarrow> jsstring" where
  "normalize_str P str = toLowerCase P (stripCombiningMarks (normalizeNFD P str))"

text \<open>\<open>s.startsWith(p)\<close>: the code units of \<open>p\<close> are the first code units of \<open>s\<close>.\<close>

fun startsWith :: "jsstring \<Rightarrow> jsstring \<Rightarrow> bool" where
  "startsWith s [] = True"
| "startsWith [] (p # ps) = False"
| "startsWith (c # cs) (p # ps) = (c = p \<and> startsWith cs ps)"

text \<open>The callback handed to \<open>countries.filter\<close> in \<open>updateGrid\<close>.\<close>

definition filterCallback :: "platform \<Rightarrow> jsstring \<Rightarrow> bool \<Rightarrow> 'a country_scheme \<Rightarrow> bool" where
  "filterCallback P filterValue isRegionFilter country =
     (if isRegionFilter
      then filterValue = js ''all'' \<or> normalize_str P (region country) = normalize_str P filterValue
      else startsWith (normalize_str P (name country)) (normalize_str P filterValue))"

text \<open>\<open>Array.prototype.filter\<close> keeps the accepted elements in their order.\<close>

definition filteredCountries ::
  "platform \<Rightarrow> jsstring \<Rightarrow> bool \<Rightarrow> 'a country_scheme list \<Rightarrow> 'a country_scheme list" where
  "filteredCountries P filterValue isRegionFilter countries =
     filter (filterCallback P filterValue isRegionFilter) countries"

section \<open>The search box (index.js)\<close>

text \<open>
  The class \<open>[^a-zA-Z\s]\<close> of the input listener.  \<open>\s\<close> is the white space and the
  line terminators of ECMAScript: TAB, LF, VT, FF, CR, SPACE, NO-BREAK SPACE, U+1680,
  U+2000 to U+200A, U+2028, U+2029, U+202F, U+205F, U+3000 and U+FEFF.
\<close>

definition asciiLetter :: "code_unit \<Rightarrow> bool" where
  "asciiLetter c \<longleftrightarrow> (0x61 \<le> c \<and> c \<le> 0x7A) \<or> (0x41 \<le> c \<and> c \<le> 0x5A)"

definition whiteSpace :: "code_unit \<Rightarrow> bool" where
  "whiteSpace c \<longleftrightarrow>
     (0x09 \<le> c \<and> c \<le> 0x0D) \<or> c = 0x20 \<or> c = 0xA0 \<or> c = 0x1680 \<or>
     (0x2000 \<le> c \<and> c \<le> 0x200A) \<or> c = 0x2028 \<or> c = 0x2029 \<or> c = 0x202F \<or>
     c = 0x205F \<or> c = 0x3000 \<or> c = 0xFEFF"

definition allowedInput :: "code_unit \<Rightarrow> bool" where
  "allowedInput c \<longleftrightarrow> asciiLetter c \<or> whiteSpace c"

text \<open>\<open>originalValue.replace(/[^a-zA-Z\s]/g, '')\<close>\<close>

definition filteredValue :: "jsstring \<Rightarrow> jsstring" where
  "filteredValue originalValue = filter allowedInput originalValue"

text \<open>\<open>String.prototype.trim\<close> removes white space and line terminators at both ends.\<close>

definition trim :: "jsstring \<Rightarrow> jsstring" where
  "trim s = rev (dropWhile whiteSpace (rev (dropWhile whiteSpace s)))"

text \<open>\<open>dataOfCountryInput\<close>, the value the listener hands to \<open>updateGrid\<close>.\<close>

definition dataOfCountryInput :: "jsstring \<Rightarrow> jsstring" where
  "dataOfCountryInput originalValue = trim (filteredValue originalValue)"

section \<open>The page and its handlers (index.js, common.js)\<close>

text \<open>
  What the handlers of the index page read and write: the children of the
  \<open>.countries-grid\<close> element, the value of the search box, the messages handed to
  \<open>showToast\<close> and the lines written by \<open>console.error\<close>.  The element built by
  \<open>createCountryElement\<close> is kept as the record it shows and its view mode.
\<close>

datatype js_error = FetchRejected | FailedToFetchJSON jsstring | JsonRejected

datatype log_entry = ConsoleError string js_error

datatype 'a element = CountryElement 'a bool

record 'a page =
  grid :: "'a element list"
  searchInput :: jsstring
  toasts :: "string list"
  console :: "log_entry list"

text \<open>
  What the network gives to \<open>fetch(filePath)\<close> and \<open>response.json()\<close>: the request
  is rejected, or there is a response with its \<open>ok\<close> flag, its \<open>statusText\<close> and the
  parsed body (none when the body is not JSON).
\<close>

datatype 'a response = NoResponse | Response bool jsstring "'a list option"

text \<open>
  \<open>fetchData\<close>: every failure is written to the console and thrown again; the result is
  the thrown error or the parsed data, with the console.
\<close>

fun fetchData :: "'a response \<Rightarrow> log_entry list \<Rightarrow> (js_error + 'a list) \<times> log_entry list" where
  "fetchData NoResponse con =
     (Inl FetchRejected, con @ [ConsoleError ''Error fetching data:'' FetchRejected])"
| "fetchData (Response ok statusText body) con =
     (if \<not> ok
      then (Inl (FailedToFetchJSON statusText),
            con @ [ConsoleError ''Error fetching data:'' (FailedToFetchJSON statusText)])
      else (case body of
              None \<Rightarrow> (Inl JsonRejected, con @ [ConsoleError ''Error fetching data:'' JsonRejected])
            | Some countries \<Rightarrow> (Inr countries, con)))"

text \<open>
  \<open>buildCountriesGrid\<close>: \<open>innerHTML = ''\<close> drops the children of the target, then one
  element per country is appended.
\<close>

definition buildCountriesGrid ::
  "'a country_scheme list \<Rightarrow> bool \<Rightarrow> 'a country_scheme page \<Rightarrow> 'a country_scheme page" where
  "buildCountriesGrid countries isGrid pg =
     pg\<lparr>grid := foldl (\<lambda>children country. children @ [CountryElement country isGrid]) [] countries\<rparr>"

text \<open>
  \<open>updateGrid\<close>: the \<open>try\<close> block fetches, filters and rebuilds the grid; the
  \<open>catch\<close> block writes the error to the console.
\<close>

definition updateGrid ::
  "platform \<Rightarrow> 'a country_scheme response \<Rightarrow> jsstring \<Rightarrow> bool \<Rightarrow>
     'a country_scheme page \<Rightarrow> 'a country_scheme page" where
  "updateGrid P resp filterValue isRegionFilter pg =
     (case fetchData resp (console pg) of
        (Inr countries, con) \<Rightarrow>
          buildCountriesGrid (filteredCountries P filterValue isRegionFilter countries) True
            (pg\<lparr>console := con\<rparr>)
      | (Inl error, con) \<Rightarrow>
          pg\<lparr>console := con @ [ConsoleError ''Error updating grid:'' error]\<rparr>)"

text \<open>\<open>showToast(message)\<close>, without the timer that hides the toast after a second.\<close>

definition showToast :: "string \<Rightarrow> 'a page \<Rightarrow> 'a page" where
  "showToast message pg = pg\<lparr>toasts := toasts pg @ [message]\<rparr>"

text \<open>The \<open>input\<close> listener of the search box, run on the value the user typed.\<close>

definition searchInputListener ::
  "platform \<Rightarrow> 'a country_scheme response \<Rightarrow> jsstring \<Rightarrow>
     'a country_scheme page \<Rightarrow> 'a country_scheme page" where
  "searchInputListener P resp originalValue pg =
     (let pg1 = (if originalValue \<noteq> filteredValue originalValue
                 then showToast ''Please type in English only.'' pg else pg);
          pg2 = pg1\<lparr>searchInput := filteredValue originalValue\<rparr>
      in updateGrid P resp (dataOfCountryInput originalValue) False pg2)"


section \<open>Code points and normalisation form D\<close>

text \<open>
  The built-ins work on the code points of a string.  \<open>StringToCodePoints\<close> of
  ECMAScript reads a leading surrogate followed by a trailing surrogate as one code
  point and every other code unit, an unpaired surrogate too, as a code point of its
  own.  A code point is kept here as the one or two code units that encode it, so that
  \<open>CodePointsToString\<close> is concatenation.
\<close>

type_synonym code_point = jsstring

definition leadingSurrogate :: "code_unit \<Rightarrow> bool" where
  "leadingSurrogate u \<longleftrightarrow> 0xD800 \<le> u \<and> u \<le> 0xDBFF"

definition trailingSurrogate :: "code_unit \<Rightarrow> bool" where
  "trailingSurrogate u \<longleftrightarrow> 0xDC00 \<le> u \<and> u \<le> 0xDFFF"

fun StringToCodePoints :: "jsstring \<Rightarrow> code_point list" where
  "StringToCodePoints [] = []"
| "StringToCodePoints [u] = [[u]]"
| "StringToCodePoints (h # l # r) =
     (if leadingSurrogate h \<and> trailingSurrogate l
      then [h, l] # StringToCodePoints r
      else [h] # StringToCodePoints (l # r))"

definition CodePointsToString :: "code_point list \<Rightarrow> jsstring" where
  "CodePointsToString cps = concat cps"

text \<open>
  A Unicode scalar value is a code point that is not a surrogate; a string is well
  formed when it has no unpaired surrogate.
\<close>

fun scalarValue :: "code_point \<Rightarrow> bool" where
  "scalarValue [u] = (\<not> leadingSurrogate u \<and> \<not> trailingSurrogate u)"
| "scalarValue [h, l] = (leadingSurrogate h \<and> trailingSurrogate l)"
| "scalarValue _ = False"

definition wellFormed :: "jsstring \<Rightarrow> bool" where
  "wellFormed str = list_all scalarValue (StringToCodePoints str)"

text \<open>
  Normalisation form D is defined by two tables of the Unicode Character Database: the
  full canonical decomposition of every code point (the code point itself when it has
  none) and its canonical combining class.  The tables are a parameter; the algorithm
  is the one of the Unicode Standard: every code point is replaced by its
  decomposition, then inside every run of code points of class other than 0 the code
  points are sorted by class, and code points of the same class keep their order.
  \<open>insertMark cc c s\<close> puts \<open>c\<close> in front of the ordered \<open>s\<close> and moves it behind the
  marks of strictly smaller class that start \<open>s\<close>.
\<close>

record unicodeData =
  canonicalDecomposition :: "code_point \<Rightarrow> code_point list"
  combiningClass :: "code_point \<Rightarrow> nat"

fun insertMark :: "(code_point \<Rightarrow> nat) \<Rightarrow> code_point \<Rightarrow> code_point list \<Rightarrow> code_point list" where
  "insertMark cc c [] = [c]"
| "insertMark cc c (d # ds) =
     (if cc d \<noteq> 0 \<and> cc d < cc c then d # insertMark cc c ds else c # d # ds)"

fun canonicalOrder :: "(code_point \<Rightarrow> nat) \<Rightarrow> code_point list \<Rightarrow> code_point list" where
  "canonicalOrder cc [] = []"
| "canonicalOrder cc (c # cs) = insertMark cc c (canonicalOrder cc cs)"

definition NFD :: "unicodeData \<Rightarrow> jsstring \<Rightarrow> jsstring" where
  "NFD T str =
     CodePointsToString
       (canonicalOrder (combiningClass T)
          (concat (map (canonicalDecomposition T) (StringToCodePoints str))))"

text \<open>
  A list of code points is canonically ordered when no mark follows a mark of greater
  class.  \<open>strippedPoint\<close> holds of the code points that \<open>normalize\<close> deletes.
\<close>

fun canonicallyOrdered :: "(code_point \<Rightarrow> nat) \<Rightarrow> code_point list \<Rightarrow> bool" where
  "canonicallyOrdered cc [] = True"
| "canonicallyOrdered cc [c] = True"
| "canonicallyOrdered cc (c # d # ds) =
     ((cc d = 0 \<or> cc c \<le> cc d) \<and> canonicallyOrdered cc (d # ds))"

fun strippedPoint :: "code_point \<Rightarrow> bool" where
  "strippedPoint [u] = combiningMark u"
| "strippedPoint _ = False"

text \<open>
  What the Unicode Standard says of the two tables, for every version of the database:
  a decomposition of a scalar value consists of scalar values that have no further
  decomposition; the combining grapheme joiner U+034F occurs in no decomposition but
  its own; every code point from U+0300 to U+036F other than U+034F has a class other
  than 0; an unpaired surrogate has no decomposition and class 0.
\<close>

definition canonicalData :: "unicodeData \<Rightarrow> bool" where
  "canonicalData T \<longleftrightarrow>
     (\<forall>c. scalarValue c \<longrightarrow>
        (\<forall>d\<in>set (canonicalDecomposition T c).
           scalarValue d \<and> canonicalDecomposition T d = [d] \<and> (d = [0x034F] \<longrightarrow> c = [0x034F]))) \<and>
     (\<forall>u. 0x0300 \<le> u \<and> u \<le> 0x036F \<and> u \<noteq> 0x034F \<longrightarrow> combiningClass T [u] \<noteq> 0) \<and>
     (\<forall>u. leadingSurrogate u \<or> trailingSurrogate u \<longrightarrow>
        canonicalDecomposition T [u] = [[u]] \<and> combiningClass T [u] = 0)"

text \<open>
  What holds of the lower casing of the Unicode Standard, as far as \<open>normalize\<close>
  needs it: a string in lower case stays as it is, and so does each of its prefixes; the
  lower case of a well-formed string in normalisation form D is again well formed and in
  form D, and it has no code unit from U+0300 to U+036F that the string did not have.
  In the case mappings of the Unicode Character Database a code point without
  decomposition has a lower case of one code point, of the same combining class and
  without decomposition; the one lower case of two code points, that of U+0130, adds
  the mark U+0307, and U+0130 has a decomposition.
\<close>

definition lowerCaseFacts :: "unicodeData \<Rightarrow> (jsstring \<Rightarrow> jsstring) \<Rightarrow> bool" where
  "lowerCaseFacts T lower \<longleftrightarrow>
     (\<forall>x. lower (lower x) = lower x) \<and>
     (\<forall>x k. lower x = x \<longrightarrow> lower (take k x) = take k x) \<and>
     (\<forall>x. wellFormed x \<and> NFD T x = x \<longrightarrow>
        wellFormed (lower x) \<and> NFD T (lower x) = lower x \<and>
        (\<forall>u\<in>set (lower x). 0x0300 \<le> u \<and> u \<le> 0x036F \<longrightarrow> u \<in> set x))"

text \<open>An engine that follows the Unicode Standard, with the tables \<open>T\<close>.\<close>

definition unicodeEngine :: "unicodeData \<Rightarrow> platform \<Rightarrow> bool" where
  "unicodeEngine T P \<longleftrightarrow>
     normalizeNFD P = NFD T \<and> canonicalData T \<and> lowerCaseFacts T (toLowerCase P)"

text \<open>
  The marks of a string that \<open>normalize\<close> keeps: the code points of its decomposition
  that have a class other than 0 and lie outside U+0300 to U+036F.
\<close>

definition keptMarks :: "unicodeData \<Rightarrow> jsstring \<Rightarrow> code_point list" where
  "keptMarks T str =
     filter (\<lambda>d. combiningClass T d \<noteq> 0 \<and> \<not> strippedPoint d)
       (concat (map (canonicalDecomposition T) (StringToCodePoints str)))"

section \<open>The engine's built-ins on five blocks of Unicode\<close>

text \<open>
  For the claims that depend on what the built-ins compute, the tables and
  \<open>toLowerCase\<close> are written out after the Unicode Character Database (UnicodeData.txt,
  version 14.0) for Basic Latin and Latin-1 Supplement (U+0000 to U+00FF), Combining
  Diacritical Marks (U+0300 to U+036F), Hebrew (U+0590 to U+05FF) and Musical Symbols
  (U+1D100 to U+1D1FF, the code points of leading surrogate D834 and trailing surrogate
  DD00 to DDFF).  The tables are complete for these blocks, an unpaired surrogate has
  no entry (no decomposition, class 0, no lower case), and the tables say nothing on
  the other blocks: \<open>unicode\<close> is used on strings of these code points only.  The
  general theorems on normalisation do not use these tables: they hold for every
  table with the properties \<open>canonicalData\<close>.
\<close>

definition canonicalDecompositions :: "(code_point \<times> code_point list) list" where
  "canonicalDecompositions =
     [([0x00C0], [[0x0041], [0x0300]]), ([0x00C1], [[0x0041], [0x0301]]),
      ([0x00C2], [[0x0041], [0x0302]]), ([0x00C3], [[0x0041], [0x0303]]),
      ([0x00C4], [[0x0041], [0x0308]]), ([0x00C5], [[0x0041], [0x030A]]),
      ([0x00C7], [[0x0043], [0x0327]]), ([0x00C8], [[0x0045], [0x0300]]),
      ([0x00C9], [[0x0045], [0x0301]]), ([0x00CA], [[0x0045], [0x0302]]),
      ([0x00CB], [[0x0045], [0x0308]]), ([0x00CC], [[0x0049], [0x0300]]),
      ([0x00CD], [[0x0049], [0x0301]]), ([0x00CE], [[0x0049], [0x0302]]),
      ([0x00CF], [[0x0049], [0x0308]]), ([0x00D1], [[0x004E], [0x0303]]),
      ([0x00D2], [[0x004F], [0x0300]]), ([0x00D3], [[0x004F], [0x0301]]),
      ([0x00D4], [[0x004F], [0x0302]]), ([0x00D5], [[0x004F], [0x0303]]),
      ([0x00D6], [[0x004F], [0x0308]]), ([0x00D9], [[0x0055], [0x0300]]),
      ([0x00DA], [[0x0055], [0x0301]]), ([0x00DB], [[0x0055], [0x0302]]),
      ([0x00DC], [[0x0055], [0x0308]]), ([0x00DD], [[0x0059], [0x0301]]),
      ([0x00E0], [[0x0061], [0x0300]]), ([0x00E1], [[0x0061], [0x0301]]),
      ([0x00E2], [[0x0061], [0x0302]]), ([0x00E3], [[0x0061], [0x0303]]),
      ([0x00E4], [[0x0061], [0x0308]]), ([0x00E5], [[0x0061], [0x030A]]),
      ([0x00E7], [[0x0063], [0x0327]]), ([0x00E8], [[0x0065], [0x0300]]),
      ([0x00E9], [[0x0065], [0x0301]]), ([0x00EA], [[0x0065], [0x0302]]),
      ([0x00EB], [[0x0065], [0x0308]]), ([0x00EC], [[0x0069], [0x0300]]),
      ([0x00ED], [[0x0069], [0x0301]]), ([0x00EE], [[0x0069], [0x0302]]),
      ([0x00EF], [[0x0069], [0x0308]]), ([0x00F1], [[0x006E], [0x0303]]),
      ([0x00F2], [[0x006F], [0x0300]]), ([0x00F3], [[0x006F], [0x0301]]),
      ([0x00F4], [[0x006F], [0x0302]]), ([0x00F5], [[0x006F], [0x0303]]),
      ([0x00F6], [[0x006F], [0x0308]]), ([0x00F9], [[0x0075], [0x0300]]),
      ([0x00FA], [[0x0075], [0x0301]]), ([0x00FB], [[0x0075], [0x0302]]),
      ([0x00FC], [[0x0075], [0x0308]]), ([0x00FD], [[0x0079], [0x0301]]),
      ([0x00FF], [[0x0079], [0x0308]]), ([0x0340], [[0x0300]]), ([0x0341], [[0x0301]]),
      ([0x0343], [[0x0313]]), ([0x0344], [[0x0308], [0x0301]]),
      ([0xD834, 0xDD5E], [[0xD834, 0xDD57], [0xD834, 0xDD65]]),
      ([0xD834, 0xDD5F], [[0xD834, 0xDD58], [0xD834, 0xDD65]]),
      ([0xD834, 0xDD60], [[0xD834, 0xDD58], [0xD834, 0xDD65], [0xD834, 0xDD6E]]),
      ([0xD834, 0xDD61], [[0xD834, 0xDD58], [0xD834, 0xDD65], [0xD834, 0xDD6F]]),
      ([0xD834, 0xDD62], [[0xD834, 0xDD58], [0xD834, 0xDD65], [0xD834, 0xDD70]]),
      ([0xD834, 0xDD63], [[0xD834, 0xDD58], [0xD834, 0xDD65], [0xD834, 0xDD71]]),
      ([0xD834, 0xDD64], [[0xD834, 0xDD58], [0xD834, 0xDD65], [0xD834, 0xDD72]]),
      ([0xD834, 0xDDBB], [[0xD834, 0xDDB9], [0xD834, 0xDD65]]),
      ([0xD834, 0xDDBC], [[0xD834, 0xDDBA], [0xD834, 0xDD65]]),
      ([0xD834, 0xDDBD], [[0xD834, 0xDDB9], [0xD834, 0xDD65], [0xD834, 0xDD6E]]),
      ([0xD834, 0xDDBE], [[0xD834, 0xDDBA], [0xD834, 0xDD65], [0xD834, 0xDD6E]]),
      ([0xD834, 0xDDBF], [[0xD834, 0xDDB9], [0xD834, 0xDD65], [0xD834, 0xDD6F]]),
      ([0xD834, 0xDDC0], [[0xD834, 0xDDBA], [0xD834, 0xDD65], [0xD834, 0xDD6F]])]"

definition decomposition :: "code_point \<Rightarrow> code_point list" where
  "decomposition c = (case map_of canonicalDecompositions c of None \<Rightarrow> [c] | Some d \<Rightarrow> d)"

text \<open>
  The canonical combining classes that are not 0, as ranges of code units with their
  class: for the code points of one code unit, and for the trailing surrogate of the
  code points of leading surrogate D834.  U+034F, the combining grapheme joiner, has
  class 0.
\<close>

definition combiningClasses :: "(code_unit \<times> code_unit \<times> nat) list" where
  "combiningClasses =
     [(0x0300, 0x0314, 230), (0x0315, 0x0315, 232), (0x0316, 0x0319, 220), (0x031A, 0x031A, 232),
      (0x031B, 0x031B, 216), (0x031C, 0x0320, 220), (0x0321, 0x0322, 202), (0x0323, 0x0326, 220),
      (0x0327, 0x0328, 202), (0x0329, 0x0333, 220), (0x0334, 0x0338, 1), (0x0339, 0x033C, 220),
      (0x033D, 0x0344, 230), (0x0345, 0x0345, 240), (0x0346, 0x0346, 230), (0x0347, 0x0349, 220),
      (0x034A, 0x034C, 230), (0x034D, 0x034E, 220), (0x0350, 0x0352, 230), (0x0353, 0x0356, 220),
      (0x0357, 0x0357, 230), (0x0358, 0x0358, 232), (0x0359, 0x035A, 220), (0x035B, 0x035B, 230),
      (0x035C, 0x035C, 233), (0x035D, 0x035E, 234), (0x035F, 0x035F, 233), (0x0360, 0x0361, 234),
      (0x0362, 0x0362, 233), (0x0363, 0x036F, 230), (0x0591, 0x0591, 220), (0x0592, 0x0595, 230),
      (0x0596, 0x0596, 220), (0x0597, 0x0599, 230), (0x059A, 0x059A, 222), (0x059B, 0x059B, 220),
      (0x059C, 0x05A1, 230), (0x05A2, 0x05A7, 220), (0x05A8, 0x05A9, 230), (0x05AA, 0x05AA, 220),
      (0x05AB, 0x05AC, 230), (0x05AD, 0x05AD, 222), (0x05AE, 0x05AE, 228), (0x05AF, 0x05AF, 230),
      (0x05B0, 0x05B0, 10), (0x05B1, 0x05B1, 11), (0x05B2, 0x05B2, 12), (0x05B3, 0x05B3, 13),
      (0x05B4, 0x05B4, 14), (0x05B5, 0x05B5, 15), (0x05B6, 0x05B6, 16), (0x05B7, 0x05B7, 17),
      (0x05B8, 0x05B8, 18), (0x05B9, 0x05BA, 19), (0x05BB, 0x05BB, 20), (0x05BC, 0x05BC, 21),
      (0x05BD, 0x05BD, 22), (0x05BF, 0x05BF, 23), (0x05C1, 0x05C1, 24), (0x05C2, 0x05C2, 25),
      (0x05C4, 0x05C4, 230), (0x05C5, 0x05C5, 220), (0x05C7, 0x05C7, 18)]"

definition musicalClasses :: "(code_unit \<times> code_unit \<times> nat) list" where
  "musicalClasses =
     [(0xDD65, 0xDD66, 216), (0xDD67, 0xDD69, 1), (0xDD6D, 0xDD6D, 226), (0xDD6E, 0xDD72, 216),
      (0xDD7B, 0xDD82, 220), (0xDD85, 0xDD89, 230), (0xDD8A, 0xDD8B, 220), (0xDDAA, 0xDDAD, 230)]"

fun classIn :: "(code_unit \<times> code_unit \<times> nat) list \<Rightarrow> code_unit \<Rightarrow> nat" where
  "classIn [] c = 0"
| "classIn ((lo, hi, k) # rs) c = (if lo \<le> c \<and> c \<le> hi then k else classIn rs c)"

fun ccc :: "code_point \<Rightarrow> nat" where
  "ccc [u] = classIn combiningClasses u"
| "ccc [h, l] = (if h = 0xD834 then classIn musicalClasses l else 0)"
| "ccc _ = 0"

definition unicodeTables :: unicodeData where
  "unicodeTables = \<lparr>canonicalDecomposition = decomposition, combiningClass = ccc\<rparr>"

definition unicodeNFD :: "jsstring \<Rightarrow> jsstring" where
  "unicodeNFD str = NFD unicodeTables str"

text \<open>
  Lower case: the letters A to Z and the letters U+00C0 to U+00DE (but not the
  multiplication sign U+00D7) have a lower case form, 32 code units further.
\<close>

definition lowerCaseUnit :: "code_unit \<Rightarrow> code_unit" where
  "lowerCaseUnit c =
     (if (0x41 \<le> c \<and> c \<le> 0x5A) \<or> (0xC0 \<le> c \<and> c \<le> 0xDE \<and> c \<noteq> 0xD7) then c + 0x20 else c)"

definition unicodeLowerCase :: "jsstring \<Rightarrow> jsstring" where
  "unicodeLowerCase str = map lowerCaseUnit str"

definition unicode :: platform where
  "unicode = \<lparr>normalizeNFD = unicodeNFD, toLowerCase = unicodeLowerCase\<rparr>"

section \<open>Lookup: properties\<close>

lemma array_find_filter:
  "array_find p xs = (case filter p xs of [] \<Rightarrow> Undefined | x # _ \<Rightarrow> Found x)"
  by (induction xs) simp_all

lemma array_find_first:
  "\<forall>x\<in>set pre. \<not> p x \<Longrightarrow> p r \<Longrightarrow> array_find p (pre @ r # post) = Found r"
  by (induction pre) simp_all

lemma array_find_none: "\<forall>x\<in>set xs. \<not> p x \<Longrightarrow> array_find p xs = Undefined"
  by (induction xs) simp_all

lemma array_find_distinct:
  "r \<in> set xs \<Longrightarrow> distinct (map f xs) \<Longrightarrow> array_find (\<lambda>x. f x = f r) xs = Found r"
proof (induction xs)
  case Nil
  then show ?case by simp
next
  case (Cons x xs)
  show ?case
  proof (cases "x = r")
    case True
    then show ?thesis by simp
  next
    case False
    with Cons.prems have r: "r \<in> set xs" and d: "distinct (map f xs)" and nx: "f x \<notin> f ` set xs"
      by simp_all
    from r nx have "f x \<noteq> f r" by force
    with Cons.IH [OF r d] show ?thesis by simp
  qed
qed

section \<open>Code points: properties\<close>

declare ccc.simps [simp del]

lemma concat_StringToCodePoints: "concat (StringToCodePoints s) = s"
  by (induction s rule: StringToCodePoints.induct) simp_all

lemma StringToCodePoints_Cons:
  "\<not> leadingSurrogate u \<Longrightarrow> StringToCodePoints (u # r) = [u] # StringToCodePoints r"
  by (cases r) simp_all

lemma surrogates_disjoint: "leadingSurrogate u \<Longrightarrow> \<not> trailingSurrogate u"
  by (simp add: leadingSurrogate_def trailingSurrogate_def word_le_nat_alt)

lemma scalarValue_cases:
  assumes "scalarValue c"
  obtains (unit) u where "c = [u]" "\<not> leadingSurrogate u" "\<not> trailingSurrogate u"
    | (pair) h l where "c = [h, l]" "leadingSurrogate h" "trailingSurrogate l"
  using assms by (cases c rule: scalarValue.cases) auto

lemma StringToCodePoints_append:
  "list_all scalarValue cs \<Longrightarrow> StringToCodePoints (concat cs @ t) = cs @ StringToCodePoints t"
proof (induction cs)
  case Nil
  then show ?case by simp
next
  case (Cons c cs)
  then have c: "scalarValue c" and IH: "StringToCodePoints (concat cs @ t) = cs @ StringToCodePoints t"
    by simp_all
  from c show ?case
  proof (cases rule: scalarValue_cases)
    case (unit u)
    with IH show ?thesis by (simp add: StringToCodePoints_Cons)
  next
    case (pair h l)
    with IH show ?thesis by simp
  qed
qed

lemma StringToCodePoints_concat:
  "list_all scalarValue cs \<Longrightarrow> StringToCodePoints (concat cs) = cs"
  using StringToCodePoints_append [of cs "[]"] by simp

lemma wellFormed_concat: "list_all scalarValue cs \<Longrightarrow> wellFormed (concat cs)"
  by (simp add: wellFormed_def StringToCodePoints_concat)

lemma mark_not_surrogate: "combiningMark u \<Longrightarrow> \<not> leadingSurrogate u \<and> \<not> trailingSurrogate u"
  by (simp add: combiningMark_def leadingSurrogate_def trailingSurrogate_def word_le_nat_alt)

lemma stripCombiningMarks_scalar:
  "scalarValue c \<Longrightarrow> stripCombiningMarks c = (if strippedPoint c then [] else c)"
  by (cases rule: scalarValue_cases, assumption)
    (auto simp: stripCombiningMarks_def dest: mark_not_surrogate)

lemma stripCombiningMarks_concat:
  "list_all scalarValue cs \<Longrightarrow>
     stripCombiningMarks (concat cs) = concat (filter (\<lambda>c. \<not> strippedPoint c) cs)"
proof (induction cs)
  case Nil
  then show ?case by (simp add: stripCombiningMarks_def)
next
  case (Cons c cs)
  then have "stripCombiningMarks (concat cs) = concat (filter (\<lambda>c. \<not> strippedPoint c) cs)"
    and c: "scalarValue c"
    by simp_all
  moreover have "stripCombiningMarks (c @ concat cs) = stripCombiningMarks c @ stripCombiningMarks (concat cs)"
    by (simp add: stripCombiningMarks_def)
  ultimately show ?case by (simp add: stripCombiningMarks_scalar)
qed

lemma take_concat_scalar:
  "list_all scalarValue cs \<Longrightarrow>
     \<exists>j t. take k (concat cs) = concat (take j cs) @ t \<and>
           (t = [] \<or> (\<exists>h. t = [h] \<and> leadingSurrogate h))"
proof (induction cs arbitrary: k)
  case Nil
  show ?case by simp
next
  case (Cons c cs)
  then have c: "scalarValue c" and cs: "list_all scalarValue cs" by simp_all
  show ?case
  proof (cases "k < length c")
    case True
    from c show ?thesis
    proof (cases rule: scalarValue_cases)
      case (unit u)
      with True have "take k (concat (c # cs)) = concat (take 0 (c # cs)) @ []" by simp
      then show ?thesis by blast
    next
      case (pair h l)
      with True have "k = 0 \<or> k = 1" by auto
      then show ?thesis
      proof
        assume "k = 0"
        then have "take k (concat (c # cs)) = concat (take 0 (c # cs)) @ []" by simp
        then show ?thesis by blast
      next
        assume "k = 1"
        with pair have "take k (concat (c # cs)) = concat (take 0 (c # cs)) @ [h]" by simp
        with pair show ?thesis by blast
      qed
    qed
  next
    case False
    from Cons.IH [OF cs, of "k - length c"] obtain j t where
      jt: "take (k - length c) (concat cs) = concat (take j cs) @ t"
        "t = [] \<or> (\<exists>h. t = [h] \<and> leadingSurrogate h)"
      by blast
    from False jt(1) have "take k (concat (c # cs)) = concat (take (Suc j) (c # cs)) @ t"
      by simp
    with jt(2) show ?thesis by blast
  qed
qed

section \<open>Canonical ordering: properties\<close>

lemma set_insertMark: "set (insertMark cc c s) = insert c (set s)"
  by (induction s) auto

lemma set_canonicalOrder: "set (canonicalOrder cc s) = set s"
  by (induction s) (simp_all add: set_insertMark)

lemma canonicallyOrdered_Cons:
  "canonicallyOrdered cc (c # s) \<longleftrightarrow>
     canonicallyOrdered cc s \<and> (case s of [] \<Rightarrow> True | d # _ \<Rightarrow> cc d = 0 \<or> cc c \<le> cc d)"
  by (cases s) auto

lemma canonicallyOrdered_insertMark:
  "canonicallyOrdered cc s \<Longrightarrow> canonicallyOrdered cc (insertMark cc c s)"
proof (induction s)
  case Nil
  then show ?case by simp
next
  case (Cons d ds)
  then have ds: "canonicallyOrdered cc (insertMark cc c ds)"
    by (simp add: canonicallyOrdered_Cons)
  show ?case
  proof (cases "cc d \<noteq> 0 \<and> cc d < cc c")
    case True
    with Cons.prems ds show ?thesis
      by (cases ds) (auto simp: canonicallyOrdered_Cons)
  next
    case False
    with Cons.prems show ?thesis by auto
  qed
qed

lemma canonicallyOrdered_canonicalOrder: "canonicallyOrdered cc (canonicalOrder cc s)"
  by (induction s) (simp_all add: canonicallyOrdered_insertMark)

lemma canonicalOrder_fixed: "canonicallyOrdered cc s \<Longrightarrow> canonicalOrder cc s = s"
proof (induction s)
  case Nil
  then show ?case by simp
next
  case (Cons c cs)
  then have "canonicalOrder cc cs = cs" by (simp add: canonicallyOrdered_Cons)
  with Cons.prems show ?case by (cases cs) auto
qed

lemma canonicallyOrdered_drop_mark:
  "canonicallyOrdered cc (c # d # ds) \<Longrightarrow> cc d \<noteq> 0 \<Longrightarrow> canonicallyOrdered cc (c # ds)"
  by (cases ds) auto

lemma canonicallyOrdered_filter_Cons:
  "canonicallyOrdered cc (c # s) \<Longrightarrow> \<forall>x\<in>set s. \<not> keep x \<longrightarrow> cc x \<noteq> 0 \<Longrightarrow>
     canonicallyOrdered cc (c # filter keep s)"
proof (induction s arbitrary: c)
  case Nil
  then show ?case by simp
next
  case (Cons d ds)
  show ?case
  proof (cases "keep d")
    case True
    from Cons.prems have "canonicallyOrdered cc (d # ds)" by simp
    with Cons.prems have "canonicallyOrdered cc (d # filter keep ds)"
      by (intro Cons.IH) simp_all
    with Cons.prems True show ?thesis by simp
  next
    case False
    with Cons.prems have "cc d \<noteq> 0" by simp
    with Cons.prems have "canonicallyOrdered cc (c # ds)"
      by (intro canonicallyOrdered_drop_mark [of cc c d ds]) simp_all
    with Cons.prems have "canonicallyOrdered cc (c # filter keep ds)"
      by (intro Cons.IH) simp_all
    with False show ?thesis by simp
  qed
qed

lemma canonicallyOrdered_filter:
  "canonicallyOrdered cc s \<Longrightarrow> \<forall>x\<in>set s. \<not> keep x \<longrightarrow> cc x \<noteq> 0 \<Longrightarrow>
     canonicallyOrdered cc (filter keep s)"
proof (induction s)
  case Nil
  then show ?case by simp
next
  case (Cons c cs)
  show ?case
  proof (cases "keep c")
    case True
    with Cons.prems show ?thesis by (simp add: canonicallyOrdered_filter_Cons)
  next
    case False
    with Cons show ?thesis by (simp add: canonicallyOrdered_Cons)
  qed
qed

lemma canonicallyOrdered_starters: "\<forall>c\<in>set s. cc c = 0 \<Longrightarrow> canonicallyOrdered cc s"
  by (induction s rule: canonicallyOrdered.induct) simp_all

lemma canonicallyOrdered_map:
  "canonicallyOrdered cc s \<Longrightarrow> \<forall>x\<in>set s. cc (f x) = cc x \<Longrightarrow> canonicallyOrdered cc (map f s)"
  by (induction s rule: canonicallyOrdered.induct) simp_all

lemma canonicallyOrdered_take: "canonicallyOrdered cc s \<Longrightarrow> canonicallyOrdered cc (take k s)"
proof (induction s arbitrary: k rule: canonicallyOrdered.induct)
  case (1 cc)
  then show ?case by simp
next
  case (2 cc c)
  then show ?case by (cases k) simp_all
next
  case (3 cc c d ds)
  show ?case
  proof (cases k)
    case 0
    then show ?thesis by simp
  next
    case (Suc j)
    from "3.IH" [of j] "3.prems" have "canonicallyOrdered cc (take j (d # ds))" by simp
    with "3.prems" Suc show ?thesis by (cases j) simp_all
  qed
qed

lemma canonicallyOrdered_snoc_starter:
  "canonicallyOrdered cc s \<Longrightarrow> cc e = 0 \<Longrightarrow> canonicallyOrdered cc (s @ [e])"
  by (induction s rule: canonicallyOrdered.induct) simp_all

lemma startsWith_take: "startsWith s (take k s)"
proof (induction s arbitrary: k)
  case Nil
  then show ?case by simp
next
  case (Cons c cs)
  then show ?case by (cases k) simp_all
qed

lemma startsWith_prefix: "startsWith s p \<longleftrightarrow> prefix p s"
  by (induction s p rule: startsWith.induct) auto

section \<open>Normalisation form D: properties\<close>

lemma concat_decomposition_fixed:
  "\<forall>c\<in>set cs. dec c = [c] \<Longrightarrow> concat (map dec cs) = cs"
  by (induction cs) simp_all

text \<open>A string whose code points have no decomposition and are in order is in form D.\<close>

lemma NFD_fixed:
  assumes "\<forall>c\<in>set (StringToCodePoints x). canonicalDecomposition T c = [c]"
    and "canonicallyOrdered (combiningClass T) (StringToCodePoints x)"
  shows "NFD T x = x"
proof -
  from assms(1) have "concat (map (canonicalDecomposition T) (StringToCodePoints x)) =
      StringToCodePoints x"
    by (rule concat_decomposition_fixed)
  with assms(2) show ?thesis
    by (simp add: NFD_def CodePointsToString_def canonicalOrder_fixed concat_StringToCodePoints)
qed

text \<open>The code points of the form D of a well-formed string.\<close>

lemma NFD_points:
  assumes "canonicalData T" "wellFormed s"
  defines "ds \<equiv> canonicalOrder (combiningClass T)
                  (concat (map (canonicalDecomposition T) (StringToCodePoints s)))"
  shows "NFD T s = concat ds" and "list_all scalarValue ds"
    and "\<forall>d\<in>set ds. canonicalDecomposition T d = [d]"
    and "canonicallyOrdered (combiningClass T) ds"
    and "StringToCodePoints (NFD T s) = ds"
proof -
  show n: "NFD T s = concat ds"
    by (simp add: NFD_def CodePointsToString_def ds_def)
  have "\<forall>d\<in>set ds. scalarValue d \<and> canonicalDecomposition T d = [d]"
    using assms(1,2)
    by (auto simp: ds_def set_canonicalOrder wellFormed_def list_all_iff canonicalData_def)
  then show s: "list_all scalarValue ds" and "\<forall>d\<in>set ds. canonicalDecomposition T d = [d]"
    by (simp_all add: list_all_iff)
  show "canonicallyOrdered (combiningClass T) ds"
    by (simp add: ds_def canonicallyOrdered_canonicalOrder)
  from s show "StringToCodePoints (NFD T s) = ds"
    by (simp add: n StringToCodePoints_concat)
qed

text \<open>Conversely, the code points of a well-formed string in form D.\<close>

lemma NFD_fixed_points:
  assumes "canonicalData T" "wellFormed y" "NFD T y = y"
  shows "\<forall>c\<in>set (StringToCodePoints y). canonicalDecomposition T c = [c]"
    and "canonicallyOrdered (combiningClass T) (StringToCodePoints y)"
    and "list_all scalarValue (StringToCodePoints y)"
proof -
  from NFD_points(3,4,5) [OF assms(1,2)] assms(3)
  show "\<forall>c\<in>set (StringToCodePoints y). canonicalDecomposition T c = [c]"
    and "canonicallyOrdered (combiningClass T) (StringToCodePoints y)"
    by simp_all
  from assms(2) show "list_all scalarValue (StringToCodePoints y)"
    by (simp add: wellFormed_def)
qed

section \<open>The steps of normalize on a well-formed string\<close>

lemma canonicalData_decomposition:
  "canonicalData T \<Longrightarrow> scalarValue c \<Longrightarrow> d \<in> set (canonicalDecomposition T c) \<Longrightarrow>
     scalarValue d \<and> canonicalDecomposition T d = [d] \<and> (d = [0x034F] \<longrightarrow> c = [0x034F])"
  unfolding canonicalData_def by blast

lemma canonicalData_mark:
  "canonicalData T \<Longrightarrow> combiningMark u \<Longrightarrow> u \<noteq> 0x034F \<Longrightarrow> combiningClass T [u] \<noteq> 0"
  unfolding canonicalData_def combiningMark_def by blast

lemma canonicalData_surrogate:
  "canonicalData T \<Longrightarrow> leadingSurrogate u \<or> trailingSurrogate u \<Longrightarrow>
     canonicalDecomposition T [u] = [[u]] \<and> combiningClass T [u] = 0"
  unfolding canonicalData_def by blast

lemma lowerCaseFacts_idem: "lowerCaseFacts T lower \<Longrightarrow> lower (lower x) = lower x"
  unfolding lowerCaseFacts_def by blast

lemma lowerCaseFacts_take:
  "lowerCaseFacts T lower \<Longrightarrow> lower x = x \<Longrightarrow> lower (take k x) = take k x"
  unfolding lowerCaseFacts_def by blast

lemma lowerCaseFacts_NFD:
  "lowerCaseFacts T lower \<Longrightarrow> wellFormed x \<Longrightarrow> NFD T x = x \<Longrightarrow>
     wellFormed (lower x) \<and> NFD T (lower x) = lower x \<and>
     (\<forall>u\<in>set (lower x). combiningMark u \<longrightarrow> u \<in> set x)"
  unfolding lowerCaseFacts_def combiningMark_def by blast

text \<open>
  Deleting the marks from the form D of a well-formed string gives a well-formed
  string in form D without marks, if the string has no U+034F or keeps no mark.
\<close>

lemma stripped_NFD:
  assumes T: "canonicalData T" and wf: "wellFormed s"
    and j: "0x034F \<notin> set s \<or> keptMarks T s = []"
  defines "x \<equiv> stripCombiningMarks (NFD T s)"
  shows "wellFormed x" and "NFD T x = x" and "stripCombiningMarks x = x"
proof -
  let ?cc = "combiningClass T" and ?dec = "canonicalDecomposition T"
  define ps where "ps = concat (map ?dec (StringToCodePoints s))"
  define ds where "ds = canonicalOrder ?cc ps"
  define ks where "ks = filter (\<lambda>c. \<not> strippedPoint c) ds"
  note n = NFD_points [OF T wf, folded ps_def, folded ds_def]
  have x: "x = concat ks"
    by (simp add: x_def n(1) ks_def stripCombiningMarks_concat [OF n(2)])
  from n(2) have sk: "list_all scalarValue ks"
    by (simp add: ks_def list_all_iff)
  then have p: "StringToCodePoints x = ks"
    by (simp add: x StringToCodePoints_concat)
  from sk show "wellFormed x"
    by (simp add: x wellFormed_concat)
  have ord: "canonicallyOrdered ?cc ks"
  proof (cases "0x034F \<in> set s")
    case False
    have "\<forall>d\<in>set ds. d \<noteq> [0x034F]"
    proof
      fix d assume "d \<in> set ds"
      then obtain c where c: "c \<in> set (StringToCodePoints s)" and d: "d \<in> set (?dec c)"
        by (auto simp: ds_def ps_def set_canonicalOrder)
      from c wf have sc: "scalarValue c" by (simp add: wellFormed_def list_all_iff)
      have "set c \<subseteq> set (concat (StringToCodePoints s))" using c by auto
      with False have "c \<noteq> [0x034F]" by (auto simp: concat_StringToCodePoints)
      with canonicalData_decomposition [OF T sc d] show "d \<noteq> [0x034F]" by blast
    qed
    moreover have "?cc d \<noteq> 0" if "strippedPoint d" "d \<noteq> [0x034F]" for d
      using that by (cases d rule: strippedPoint.cases) (simp_all add: canonicalData_mark [OF T])
    ultimately have "\<forall>d\<in>set ds. \<not> \<not> strippedPoint d \<longrightarrow> ?cc d \<noteq> 0"
      by blast
    with n(4) show ?thesis
      unfolding ks_def by (rule canonicallyOrdered_filter)
  next
    case True
    with j have "keptMarks T s = []" by simp
    then have "\<forall>d\<in>set ps. ?cc d = 0 \<or> strippedPoint d"
      by (auto simp: keptMarks_def ps_def filter_empty_conv)
    then have "\<forall>d\<in>set ks. ?cc d = 0"
      by (auto simp: ks_def ds_def set_canonicalOrder)
    then show ?thesis by (rule canonicallyOrdered_starters)
  qed
  from n(3) have "\<forall>c\<in>set ks. ?dec c = [c]"
    by (simp add: ks_def)
  with ord show "NFD T x = x"
    by (intro NFD_fixed) (simp_all add: p)
  have "filter (\<lambda>c. \<not> strippedPoint c) ks = ks"
    by (simp add: ks_def)
  with sk show "stripCombiningMarks x = x"
    by (simp add: x stripCombiningMarks_concat)
qed

text \<open>So \<open>normalize\<close> of such a string is a fixed point of each of its three steps.\<close>

lemma normalize_str_steps:
  assumes E: "unicodeEngine T P" and wf: "wellFormed s"
    and j: "0x034F \<notin> set s \<or> keptMarks T s = []"
  defines "y \<equiv> normalize_str P s"
  shows "wellFormed y" and "NFD T y = y" and "stripCombiningMarks y = y"
    and "toLowerCase P y = y"
proof -
  from E have T: "canonicalData T" and N: "normalizeNFD P = NFD T"
    and L: "lowerCaseFacts T (toLowerCase P)"
    by (simp_all add: unicodeEngine_def)
  define x where "x = stripCombiningMarks (NFD T s)"
  note s = stripped_NFD [OF T wf j, folded x_def]
  have y: "y = toLowerCase P x"
    by (simp add: y_def normalize_str_def N x_def)
  note l = lowerCaseFacts_NFD [OF L s(1,2)]
  from l show "wellFormed y" and "NFD T y = y"
    by (simp_all add: y)
  from l have "\<forall>u\<in>set y. combiningMark u \<longrightarrow> u \<in> set x"
    by (simp add: y)
  moreover from s(3) have "\<forall>u\<in>set x. \<not> combiningMark u"
    by (simp add: stripCombiningMarks_def filter_id_conv)
  ultimately have "\<forall>u\<in>set y. \<not> combiningMark u" by blast
  then show "stripCombiningMarks y = y"
    by (simp add: stripCombiningMarks_def)
  from L show "toLowerCase P y = y"
    by (simp add: y lowerCaseFacts_idem)
qed

text \<open>A prefix of a well-formed string in form D is in form D.\<close>

lemma NFD_take:
  assumes T: "canonicalData T" and wf: "wellFormed y" and f: "NFD T y = y"
  shows "NFD T (take k y) = take k y"
proof -
  let ?cc = "combiningClass T" and ?dec = "canonicalDecomposition T"
  define cs where "cs = StringToCodePoints y"
  note p = NFD_fixed_points [OF T wf f, folded cs_def]
  have y: "y = concat cs" by (simp add: cs_def concat_StringToCodePoints)
  from take_concat_scalar [OF p(3), of k] obtain j t where
    jt: "take k (concat cs) = concat (take j cs) @ t"
      "t = [] \<or> (\<exists>h. t = [h] \<and> leadingSurrogate h)"
    by blast
  from p(3) have st: "list_all scalarValue (take j cs)"
    by (auto simp: list_all_iff dest: in_set_takeD)
  then have q: "StringToCodePoints (take k y) = take j cs @ StringToCodePoints t"
    by (simp add: y jt(1) StringToCodePoints_append)
  from p(1) have d: "\<forall>c\<in>set (take j cs). ?dec c = [c]"
    by (auto dest: in_set_takeD)
  from p(2) have o: "canonicallyOrdered ?cc (take j cs)"
    by (rule canonicallyOrdered_take)
  from jt(2) show ?thesis
  proof
    assume "t = []"
    with q d o show ?thesis by (intro NFD_fixed) simp_all
  next
    assume "\<exists>h. t = [h] \<and> leadingSurrogate h"
    then obtain h where h: "t = [h]" "leadingSurrogate h" by blast
    with canonicalData_surrogate [OF T, of h] have "?dec [h] = [[h]]" "?cc [h] = 0"
      by simp_all
    with q d o h show ?thesis
      by (intro NFD_fixed) (simp_all add: canonicallyOrdered_snoc_starter)
  qed
qed

section \<open>The Unicode tables: properties\<close>

lemma unat_neq_numeral:
  "(c::code_unit) \<noteq> numeral k \<Longrightarrow> unat c \<noteq> unat (numeral k :: code_unit)"
  by (simp add: word_unat_eq_iff)

lemma ccc_mark: "combiningMark c \<Longrightarrow> c \<noteq> 0x034F \<Longrightarrow> ccc [c] \<noteq> 0"
  by (drule unat_neq_numeral) (simp add: ccc.simps combiningClasses_def combiningMark_def word_le_nat_alt)

lemma ccc_latin1: "c \<le> 0xFF \<Longrightarrow> ccc [c] = 0"
  by (simp add: ccc.simps combiningClasses_def word_le_nat_alt)

lemma ccc_beyond: "0x0600 \<le> c \<Longrightarrow> ccc [c] = 0"
  by (simp add: ccc.simps combiningClasses_def word_le_nat_alt)

lemma decomposition_unit:
  "c < 0xC0 \<or> (0x0100 \<le> c \<and> c < 0x0340) \<or> 0x0345 \<le> c \<Longrightarrow> decomposition [c] = [[c]]"
  by (auto simp add: decomposition_def canonicalDecompositions_def word_less_nat_alt
      word_le_nat_alt word_unat_eq_iff)

lemma decomposition_pair:
  "h \<noteq> 0xD834 \<or> l < 0xDD5E \<or> (0xDD64 < l \<and> l < 0xDDBB) \<or> 0xDDC0 < l \<Longrightarrow>
     decomposition [h, l] = [[h, l]]"
  by (auto simp add: decomposition_def canonicalDecompositions_def word_less_nat_alt
      word_le_nat_alt word_unat_eq_iff)

lemma decompositions_table:
  "list_all (\<lambda>(k, ds). list_all (\<lambda>d.
       (\<exists>u. d = [u] \<and> (u < 0xC0 \<or> (0x0300 \<le> u \<and> u < 0x0340))) \<or>
       (\<exists>l. d = [0xD834, l] \<and> (0xDD57 \<le> l \<and> l < 0xDD5E \<or> 0xDD65 \<le> l \<and> l < 0xDDBB))) ds)
     canonicalDecompositions"
  by (simp add: canonicalDecompositions_def)

lemma upper_fixed:
  "0xC0 \<le> c \<Longrightarrow> c \<le> 0xDE \<Longrightarrow> decomposition [c] = [[c]] \<Longrightarrow>
     c = 0xC6 \<or> c = 0xD0 \<or> c = 0xD7 \<or> c = 0xD8 \<or> c = 0xDE"
  apply (simp add: decomposition_def canonicalDecompositions_def word_less_nat_alt
      word_le_nat_alt word_unat_eq_iff split: if_splits)
  apply presburger
  done

lemma lower_ascii: "0x41 \<le> c \<Longrightarrow> c \<le> 0x5A \<Longrightarrow> 0x61 \<le> c + 0x20 \<and> c + 0x20 \<le> (0x7A::code_unit)"
  by (simp add: word_le_nat_alt unat_word_ariths)

lemma lower_latin1:
  "0xC0 \<le> c \<Longrightarrow> c \<le> 0xDE \<Longrightarrow> 0xE0 \<le> c + 0x20 \<and> c + 0x20 \<le> (0xFE::code_unit)"
  by (simp add: word_le_nat_alt unat_word_ariths)

lemma lowerCaseUnit_cases:
  obtains (ascii) "0x41 \<le> c" "c \<le> 0x5A" "lowerCaseUnit c = c + 0x20"
    | (latin) "0xC0 \<le> c" "c \<le> 0xDE" "c \<noteq> 0xD7" "lowerCaseUnit c = c + 0x20"
    | (fixed) "lowerCaseUnit c = c"
  by (cases "(0x41 \<le> c \<and> c \<le> 0x5A) \<or> (0xC0 \<le> c \<and> c \<le> 0xDE \<and> c \<noteq> 0xD7)")
    (auto simp: lowerCaseUnit_def)

lemma lowerCaseUnit_range:
  "lowerCaseUnit c = c \<or> (0x61 \<le> lowerCaseUnit c \<and> lowerCaseUnit c \<le> 0xFE)"
proof (cases c rule: lowerCaseUnit_cases)
  case ascii
  with lower_ascii [of c] show ?thesis by (simp add: word_le_nat_alt)
next
  case latin
  with lower_latin1 [of c] show ?thesis by (simp add: word_le_nat_alt)
next
  case fixed
  then show ?thesis by simp
qed

lemma lowerCaseUnit_idem: "lowerCaseUnit (lowerCaseUnit c) = lowerCaseUnit c"
proof (cases c rule: lowerCaseUnit_cases)
  case ascii
  with lower_ascii [of c] show ?thesis by (simp add: lowerCaseUnit_def word_le_nat_alt)
next
  case latin
  with lower_latin1 [of c] show ?thesis by (simp add: lowerCaseUnit_def word_le_nat_alt)
next
  case fixed
  then show ?thesis by simp
qed

lemma lowerCaseUnit_mark: "combiningMark (lowerCaseUnit c) \<Longrightarrow> lowerCaseUnit c = c"
  using lowerCaseUnit_range [of c] by (auto simp: combiningMark_def word_le_nat_alt)

lemma lowerCaseUnit_surrogate:
  "leadingSurrogate c \<or> trailingSurrogate c \<Longrightarrow> lowerCaseUnit c = c"
  by (auto simp: lowerCaseUnit_def leadingSurrogate_def trailingSurrogate_def word_le_nat_alt)

lemma lowerCaseUnit_not_surrogate:
  "\<not> leadingSurrogate c \<Longrightarrow> \<not> trailingSurrogate c \<Longrightarrow>
     \<not> leadingSurrogate (lowerCaseUnit c) \<and> \<not> trailingSurrogate (lowerCaseUnit c)"
  using lowerCaseUnit_range [of c]
  by (auto simp: leadingSurrogate_def trailingSurrogate_def word_le_nat_alt)

lemma lowerCaseUnit_point:
  assumes "decomposition [c] = [[c]]"
  shows "decomposition [lowerCaseUnit c] = [[lowerCaseUnit c]] \<and> ccc [lowerCaseUnit c] = ccc [c]"
proof (cases c rule: lowerCaseUnit_cases)
  case ascii
  from ascii(1,2) have b: "0x61 \<le> c + 0x20 \<and> c + 0x20 \<le> 0x7A" by (rule lower_ascii)
  then have "decomposition [c + 0x20] = [[c + 0x20]]"
    by (intro decomposition_unit) (simp add: word_le_nat_alt word_less_nat_alt)
  moreover from b have "ccc [c + 0x20] = 0"
    by (intro ccc_latin1) (simp add: word_le_nat_alt)
  moreover from ascii have "ccc [c] = 0"
    by (intro ccc_latin1) (simp add: word_le_nat_alt)
  ultimately show ?thesis by (simp add: ascii(3))
next
  case latin
  with assms have "c = 0xC6 \<or> c = 0xD0 \<or> c = 0xD8 \<or> c = 0xDE"
    using upper_fixed [of c] by blast
  then show ?thesis
    by (elim disjE)
      (simp_all add: lowerCaseUnit_def decomposition_def canonicalDecompositions_def ccc_latin1)
next
  case fixed
  with assms show ?thesis by simp
qed

text \<open>Lower casing, read on code points.\<close>

lemma lowerCase_scalarValue: "scalarValue c \<Longrightarrow> scalarValue (map lowerCaseUnit c)"
  by (cases rule: scalarValue_cases, assumption)
    (auto simp: lowerCaseUnit_surrogate dest: lowerCaseUnit_not_surrogate)

lemma lowerCase_point:
  assumes "scalarValue c" "decomposition c = [c]"
  shows "decomposition (map lowerCaseUnit c) = [map lowerCaseUnit c] \<and>
         ccc (map lowerCaseUnit c) = ccc c"
  using assms(1)
proof (cases rule: scalarValue_cases)
  case (unit u)
  with assms(2) lowerCaseUnit_point [of u] show ?thesis by simp
next
  case (pair h l)
  with assms(2) show ?thesis by (simp add: lowerCaseUnit_surrogate)
qed

lemma map_fixed_iff: "map f xs = xs \<longleftrightarrow> (\<forall>x\<in>set xs. f x = x)"
  by (induction xs) auto

lemma canonicalData_unicodeTables: "canonicalData unicodeTables"
proof -
  have a: "scalarValue d \<and> decomposition d = [d] \<and> (d = [0x034F] \<longrightarrow> c = [0x034F])"
    if c: "scalarValue c" and d: "d \<in> set (decomposition c)" for c d
  proof (cases "map_of canonicalDecompositions c")
    case None
    with c d show ?thesis by (simp add: decomposition_def)
  next
    case (Some ds)
    then have "(c, ds) \<in> set canonicalDecompositions" by (rule map_of_SomeD)
    with decompositions_table have "\<forall>d\<in>set ds.
       (\<exists>u. d = [u] \<and> (u < 0xC0 \<or> (0x0300 \<le> u \<and> u < 0x0340))) \<or>
       (\<exists>l. d = [0xD834, l] \<and> (0xDD57 \<le> l \<and> l < 0xDD5E \<or> 0xDD65 \<le> l \<and> l < 0xDDBB))"
      unfolding list_all_iff by blast
    moreover from Some d have "d \<in> set ds" by (simp add: decomposition_def)
    ultimately consider (unit) u where "d = [u]" "u < 0xC0 \<or> (0x0300 \<le> u \<and> u < 0x0340)"
      | (pair) h l where "d = [h, l]" "h = 0xD834"
          "0xDD57 \<le> l \<and> l < 0xDD5E \<or> 0xDD65 \<le> l \<and> l < 0xDDBB"
      by blast
    then show ?thesis
    proof cases
      case unit
      from unit(2) have "decomposition [u] = [[u]]"
        by (intro decomposition_unit) (auto simp: word_le_nat_alt word_less_nat_alt)
      moreover from unit(2) have "\<not> leadingSurrogate u \<and> \<not> trailingSurrogate u \<and> u \<noteq> 0x034F"
        by (auto simp: leadingSurrogate_def trailingSurrogate_def word_le_nat_alt
            word_less_nat_alt)
      ultimately show ?thesis by (simp add: unit(1))
    next
      case pair
      from pair(3) have "decomposition [h, l] = [[h, l]]"
        by (intro decomposition_pair) (auto simp: word_le_nat_alt word_less_nat_alt)
      moreover from pair(2,3) have "leadingSurrogate h \<and> trailingSurrogate l"
        by (auto simp: leadingSurrogate_def trailingSurrogate_def word_le_nat_alt
            word_less_nat_alt)
      ultimately show ?thesis by (simp add: pair(1))
    qed
  qed
  have b: "ccc [u] \<noteq> 0" if "0x0300 \<le> u \<and> u \<le> 0x036F \<and> u \<noteq> 0x034F" for u
    using that by (simp add: ccc_mark combiningMark_def)
  have c: "decomposition [u] = [[u]] \<and> ccc [u] = 0"
    if "leadingSurrogate u \<or> trailingSurrogate u" for u
  proof -
    from that have "0xD800 \<le> u"
      by (auto simp: leadingSurrogate_def trailingSurrogate_def word_le_nat_alt)
    then have "0x0345 \<le> u" "0x0600 \<le> u" by (simp_all add: word_le_nat_alt)
    then show ?thesis by (simp add: decomposition_unit ccc_beyond)
  qed
  from a b c have
    "(\<forall>c. scalarValue c \<longrightarrow>
        (\<forall>d\<in>set (decomposition c).
           scalarValue d \<and> decomposition d = [d] \<and> (d = [0x034F] \<longrightarrow> c = [0x034F]))) \<and>
     (\<forall>u. 0x0300 \<le> u \<and> u \<le> 0x036F \<and> u \<noteq> 0x034F \<longrightarrow> ccc [u] \<noteq> 0) \<and>
     (\<forall>u. leadingSurrogate u \<or> trailingSurrogate u \<longrightarrow>
        decomposition [u] = [[u]] \<and> ccc [u] = 0)"
    by blast
  then show ?thesis
    unfolding canonicalData_def unicodeTables_def unicodeData.select_convs .
qed

lemma unicodeLowerCase_NFD:
  assumes wf: "wellFormed x" and f: "NFD unicodeTables x = x"
  shows "wellFormed (unicodeLowerCase x)"
    and "NFD unicodeTables (unicodeLowerCase x) = unicodeLowerCase x"
proof -
  define cs where "cs = StringToCodePoints x"
  define ls where "ls = map (map lowerCaseUnit) cs"
  note p = NFD_fixed_points [OF canonicalData_unicodeTables wf f, folded cs_def]
  have "x = concat cs" by (simp add: cs_def concat_StringToCodePoints)
  then have l: "unicodeLowerCase x = concat ls"
    by (simp add: unicodeLowerCase_def ls_def map_concat)
  from p(3) have s: "list_all scalarValue ls"
    by (simp add: ls_def list_all_iff lowerCase_scalarValue)
  then show "wellFormed (unicodeLowerCase x)"
    by (simp add: l wellFormed_concat)
  from s have q: "StringToCodePoints (unicodeLowerCase x) = ls"
    by (simp add: l StringToCodePoints_concat)
  from p(1,3) have c: "\<forall>c\<in>set cs. decomposition (map lowerCaseUnit c) = [map lowerCaseUnit c] \<and>
      ccc (map lowerCaseUnit c) = ccc c"
    by (auto simp: list_all_iff unicodeTables_def intro!: lowerCase_point)
  then have d: "\<forall>c\<in>set ls. canonicalDecomposition unicodeTables c = [c]"
    by (simp add: ls_def unicodeTables_def)
  from p(2) c have o: "canonicallyOrdered (combiningClass unicodeTables) ls"
    unfolding ls_def by (intro canonicallyOrdered_map) (simp_all add: unicodeTables_def)
  from d o show "NFD unicodeTables (unicodeLowerCase x) = unicodeLowerCase x"
    by (intro NFD_fixed) (simp_all add: q)
qed

lemma lowerCaseFacts_unicode: "lowerCaseFacts unicodeTables unicodeLowerCase"
proof -
  have a: "unicodeLowerCase (unicodeLowerCase x) = unicodeLowerCase x" for x
    by (simp add: unicodeLowerCase_def lowerCaseUnit_idem)
  have b: "unicodeLowerCase (take k x) = take k x" if "unicodeLowerCase x = x" for x k
  proof -
    from that have "\<forall>u\<in>set x. lowerCaseUnit u = u"
      by (simp add: unicodeLowerCase_def map_fixed_iff)
    then have "\<forall>u\<in>set (take k x). lowerCaseUnit u = u"
      by (auto dest: in_set_takeD)
    then show ?thesis by (simp add: unicodeLowerCase_def map_fixed_iff)
  qed
  have c: "\<forall>u\<in>set (unicodeLowerCase x). 0x0300 \<le> u \<and> u \<le> 0x036F \<longrightarrow> u \<in> set x" for x
  proof
    fix u assume "u \<in> set (unicodeLowerCase x)"
    then obtain v where v: "v \<in> set x" "u = lowerCaseUnit v"
      by (auto simp: unicodeLowerCase_def)
    show "0x0300 \<le> u \<and> u \<le> 0x036F \<longrightarrow> u \<in> set x"
    proof
      assume "0x0300 \<le> u \<and> u \<le> 0x036F"
      with v(2) have "combiningMark (lowerCaseUnit v)" by (simp add: combiningMark_def)
      then have "lowerCaseUnit v = v" by (rule lowerCaseUnit_mark)
      with v show "u \<in> set x" by simp
    qed
  qed
  from a b c unicodeLowerCase_NFD have
    "(\<forall>x. unicodeLowerCase (unicodeLowerCase x) = unicodeLowerCase x) \<and>
     (\<forall>x k. unicodeLowerCase x = x \<longrightarrow> unicodeLowerCase (take k x) = take k x) \<and>
     (\<forall>x. wellFormed x \<and> NFD unicodeTables x = x \<longrightarrow>
        wellFormed (unicodeLowerCase x) \<and>
        NFD unicodeTables (unicodeLowerCase x) = unicodeLowerCase x \<and>
        (\<forall>u\<in>set (unicodeLowerCase x). 0x0300 \<le> u \<and> u \<le> 0x036F \<longrightarrow> u \<in> set x))"
    by blast
  then show ?thesis unfolding lowerCaseFacts_def .
qed

lemma unicodeEngine_unicode: "unicodeEngine unicodeTables unicode"
  unfolding unicodeEngine_def
  using canonicalData_unicodeTables lowerCaseFacts_unicode
  by (auto simp: unicode_def unicodeNFD_def)

section \<open>Filtering and the example strings\<close>

lemma filteredCountries_region:
  "filteredCountries P filterValue True countries =
     filter (\<lambda>country. filterValue = js ''all'' \<or>
               normalize_str P (region country) = normalize_str P filterValue) countries"
  unfolding filteredCountries_def by (rule filter_cong) (simp_all add: filterCallback_def)

lemma filteredCountries_search:
  "filteredCountries P filterValue False countries =
     filter (\<lambda>country. startsWith (normalize_str P (name country)) (normalize_str P filterValue))
       countries"
  unfolding filteredCountries_def by (rule filter_cong) (simp_all add: filterCallback_def)

lemma StringToCodePoints_units:
  "\<forall>u\<in>set s. \<not> leadingSurrogate u \<Longrightarrow> StringToCodePoints s = map (\<lambda>u. [u]) s"
  by (induction s) (simp_all add: StringToCodePoints_Cons)

lemma normalize_str_ascii:
  assumes "\<forall>c\<in>set s. c < 0x80"
  shows "normalize_str unicode s = map lowerCaseUnit s"
proof -
  from assms have "\<forall>u\<in>set s. \<not> leadingSurrogate u"
    by (auto simp: leadingSurrogate_def word_less_nat_alt word_le_nat_alt)
  then have p: "StringToCodePoints s = map (\<lambda>u. [u]) s"
    by (rule StringToCodePoints_units)
  from assms have "\<forall>c\<in>set (StringToCodePoints s). canonicalDecomposition unicodeTables c = [c]"
    by (auto simp: p unicodeTables_def word_less_nat_alt intro!: decomposition_unit)
  moreover from assms have "\<forall>c\<in>set (StringToCodePoints s). combiningClass unicodeTables c = 0"
    by (auto simp: p unicodeTables_def word_less_nat_alt word_le_nat_alt intro!: ccc_latin1)
  then have "canonicallyOrdered (combiningClass unicodeTables) (StringToCodePoints s)"
    by (rule canonicallyOrdered_starters)
  ultimately have "unicodeNFD s = s"
    unfolding unicodeNFD_def by (rule NFD_fixed)
  moreover from assms have "\<forall>c\<in>set s. \<not> combiningMark c"
    by (auto simp: combiningMark_def word_less_nat_alt word_le_nat_alt)
  then have "stripCombiningMarks s = s"
    by (simp add: stripCombiningMarks_def)
  ultimately show ?thesis
    by (simp add: normalize_str_def unicode_def unicodeLowerCase_def)
qed

lemma normalize_Monaco: "normalize_str unicode (js ''Monaco'') = js ''monaco''"
  by (subst normalize_str_ascii) (simp_all add: js_def lowerCaseUnit_def)

lemma normalize_Europe: "normalize_str unicode (js ''Europe'') = js ''europe''"
  by (subst normalize_str_ascii) (simp_all add: js_def lowerCaseUnit_def)

lemma normalize_europe: "normalize_str unicode (js ''europe'') = js ''europe''"
  by (subst normalize_str_ascii) (simp_all add: js_def lowerCaseUnit_def)

lemma normalize_Americas: "normalize_str unicode (js ''Americas'') = js ''americas''"
  by (subst normalize_str_ascii) (simp_all add: js_def lowerCaseUnit_def)

lemma normalize_me: "normalize_str unicode (js ''me'') = js ''me''"
  by (subst normalize_str_ascii) (simp_all add: js_def lowerCaseUnit_def)

lemma normalize_All: "normalize_str unicode (js ''All'') = js ''all''"
  by (subst normalize_str_ascii) (simp_all add: js_def lowerCaseUnit_def)

lemma normalize_empty: "normalize_str unicode [] = []"
  by (simp add: normalize_str_def unicode_def unicodeNFD_def NFD_def CodePointsToString_def
      unicodeLowerCase_def stripCombiningMarks_def)

lemmas normalize_eval =
  normalize_str_def unicode_def unicodeNFD_def NFD_def CodePointsToString_def unicodeTables_def
  unicodeLowerCase_def stripCombiningMarks_def combiningMark_def lowerCaseUnit_def
  leadingSurrogate_def trailingSurrogate_def decomposition_unit decomposition_pair

lemma decomposition_e_acute: "decomposition [0xE9] = [[0x65], [0x0301]]"
  by (simp add: decomposition_def canonicalDecompositions_def)

lemma ccc_acute: "ccc [0x0301] = 230"
  by (simp add: ccc.simps combiningClasses_def)

lemma normalize_Mexico:
  "normalize_str unicode (js ''M'' @ 0xE9 # js ''xico'') = js ''mexico''"
  by (simp add: normalize_eval js_def ccc_latin1 decomposition_e_acute ccc_acute)

lemma ccc_lamed: "ccc [0x05DC] = 0"
  by (simp add: ccc.simps combiningClasses_def)

lemma ccc_patah: "ccc [0x05B7] = 17"
  by (simp add: ccc.simps combiningClasses_def)

lemma ccc_hiriq: "ccc [0x05B4] = 14"
  by (simp add: ccc.simps combiningClasses_def)

lemma ccc_joiner: "ccc [0x034F] = 0"
  by (simp add: ccc.simps combiningClasses_def)

lemma normalize_joined:
  "normalize_str unicode [0x05DC, 0x05B7, 0x034F, 0x05B4] = [0x05DC, 0x05B7, 0x05B4]"
  by (simp add: normalize_eval ccc_lamed ccc_patah ccc_hiriq ccc_joiner)

lemma normalize_unjoined:
  "normalize_str unicode [0x05DC, 0x05B7, 0x05B4] = [0x05DC, 0x05B4, 0x05B7]"
  by (simp add: normalize_eval ccc_lamed ccc_patah ccc_hiriq)

lemma decomposition_half_note:
  "decomposition [0xD834, 0xDD5E] = [[0xD834, 0xDD57], [0xD834, 0xDD65]]"
  by (simp add: decomposition_def canonicalDecompositions_def)

lemma ccc_void_notehead: "ccc [0xD834, 0xDD57] = 0"
  by (simp add: ccc.simps musicalClasses_def)

lemma ccc_stem: "ccc [0xD834, 0xDD65] = 216"
  by (simp add: ccc.simps musicalClasses_def)

lemma normalize_split:
  "normalize_str unicode [0xD834, 0x0301, 0xDD5E] = [0xD834, 0xDD5E]"
  by (simp add: normalize_eval ccc_beyond ccc_acute)

lemma normalize_paired:
  "normalize_str unicode [0xD834, 0xDD5E] = [0xD834, 0xDD57, 0xD834, 0xDD65]"
  by (simp add: normalize_eval decomposition_half_note ccc_void_notehead ccc_stem)

section \<open>The search box and the page: auxiliary facts\<close>

lemma foldl_append_elements:
  "foldl (\<lambda>children x. children @ [f x]) acc xs = acc @ map f xs"
  by (induction xs arbitrary: acc) simp_all

lemma set_trim: "set (trim s) \<subseteq> set s"
proof -
  have "set (dropWhile whiteSpace (rev (dropWhile whiteSpace s))) \<subseteq> set (rev (dropWhile whiteSpace s))"
    by (auto dest: set_dropWhileD)
  also have "\<dots> \<subseteq> set s" by (auto dest: set_dropWhileD)
  finally show ?thesis by (simp add: trim_def)
qed

lemma updateGrid_success:
  "fetchData resp (console pg) = (Inr countries, con) \<Longrightarrow>
     updateGrid P resp filterValue isRegionFilter pg =
       pg\<lparr>console := con,
          grid := map (\<lambda>country. CountryElement country True)
                    (filteredCountries P filterValue isRegionFilter countries)\<rparr>"
  by (simp add: updateGrid_def buildCountriesGrid_def foldl_append_elements)

lemma updateGrid_fields:
  "toasts (updateGrid P resp filterValue isRegionFilter pg) = toasts pg \<and>
   searchInput (updateGrid P resp filterValue isRegionFilter pg) = searchInput pg"
  by (simp add: updateGrid_def buildCountriesGrid_def split: prod.splits sum.splits)

lemma filteredValue_changed:
  "originalValue \<noteq> filteredValue originalValue \<longleftrightarrow> (\<exists>c\<in>set originalValue. \<not> allowedInput c)"
proof -
  have "filteredValue originalValue = originalValue \<longleftrightarrow> (\<forall>c\<in>set originalValue. allowedInput c)"
    by (simp add: filteredValue_def filter_id_conv)
  then show ?thesis by auto
qed

lemma filteredValue_shorter:
  "length (filteredValue originalValue) < length originalValue \<longleftrightarrow>
     (\<exists>c\<in>set originalValue. \<not> allowedInput c)"
proof
  assume "length (filteredValue originalValue) < length originalValue"
  then have "filteredValue originalValue \<noteq> originalValue" by auto
  then show "\<exists>c\<in>set originalValue. \<not> allowedInput c"
    by (auto simp: filteredValue_def filter_id_conv)
next
  assume "\<exists>c\<in>set originalValue. \<not> allowedInput c"
  then show "length (filteredValue originalValue) < length originalValue"
    by (auto simp: filteredValue_def intro: length_filter_less)
qed

section \<open>The claims\<close>

text \<open>
  Claim C1 (region mode).  For every engine, every list of records and every region
  criterion: the criterion \<open>'all'\<close> returns the whole list; any other criterion returns
  exactly the records whose normalised \<open>region\<close> equals the normalised criterion; the
  result is a subsequence of the list, so the records keep their order.
\<close>

theorem region_filter:
  "filteredCountries P (js ''all'') True countries = countries \<and>
   (filterValue \<noteq> js ''all'' \<longrightarrow>
      filteredCountries P filterValue True countries =
        filter (\<lambda>country. normalize_str P (region country) = normalize_str P filterValue) countries) \<and>
   subseq (filteredCountries P filterValue True countries) countries"
  by (simp add: filteredCountries_region)

theorem region_filter_witness:
  "js ''europe'' \<noteq> js ''all'' \<and>
   filteredCountries unicode (js ''europe'') True
     [\<lparr>name = js ''M'' @ 0xE9 # js ''xico'', region = js ''Americas''\<rparr>,
      \<lparr>name = js ''Monaco'', region = js ''Europe''\<rparr>] =
     [\<lparr>name = js ''Monaco'', region = js ''Europe''\<rparr>]"
proof -
  have ne: "js ''europe'' \<noteq> js ''all''" by (simp add: js_def)
  have am: "js ''americas'' \<noteq> js ''europe''" by (simp add: js_def)
  from region_filter [of unicode "[\<lparr>name = js ''M'' @ 0xE9 # js ''xico'', region = js ''Americas''\<rparr>,
      \<lparr>name = js ''Monaco'', region = js ''Europe''\<rparr>]" "js ''europe''"] ne am
  show ?thesis by (simp add: normalize_Americas normalize_Europe normalize_europe)
qed

text \<open>
  Claim C2 (search mode).  For every engine, every list of records and every search
  criterion, the result is exactly the records whose normalised \<open>name\<close> has the
  normalised criterion as a prefix, in their order.  The empty criterion returns the
  whole list, on every engine whose two built-ins map the empty string to itself.
\<close>

theorem search_filter:
  "filteredCountries P filterValue False countries =
     filter (\<lambda>country. prefix (normalize_str P filterValue) (normalize_str P (name country))) countries \<and>
   (normalizeNFD P [] = [] \<and> toLowerCase P [] = [] \<longrightarrow>
      filteredCountries P [] False countries = countries)"
  by (simp add: filteredCountries_search startsWith_prefix normalize_str_def
      stripCombiningMarks_def)

theorem search_filter_witness:
  "normalizeNFD unicode [] = [] \<and> toLowerCase unicode [] = [] \<and>
   filteredCountries unicode [] False
     [\<lparr>name = js ''M'' @ 0xE9 # js ''xico'', region = js ''Americas''\<rparr>,
      \<lparr>name = js ''Monaco'', region = js ''Europe''\<rparr>] =
     [\<lparr>name = js ''M'' @ 0xE9 # js ''xico'', region = js ''Americas''\<rparr>,
      \<lparr>name = js ''Monaco'', region = js ''Europe''\<rparr>]"
proof -
  have e: "normalizeNFD unicode [] = [] \<and> toLowerCase unicode [] = []"
    by (simp add: unicode_def unicodeNFD_def NFD_def CodePointsToString_def unicodeLowerCase_def)
  with search_filter [of unicode "[]" "[\<lparr>name = js ''M'' @ 0xE9 # js ''xico'', region = js ''Americas''\<rparr>,
      \<lparr>name = js ''Monaco'', region = js ''Europe''\<rparr>]"]
  show ?thesis by blast
qed

text \<open>
  Claim C3 (end-to-end example).  On the dataset of Mexico (written with U+00E9, region
  Americas) and Monaco (region Europe): the search \<open>me\<close> returns Mexico only, the
  region \<open>europe\<close> returns Monaco only, and the region \<open>all\<close> returns both records in
  their order.
\<close>

theorem end_to_end_example:
  "filteredCountries unicode (js ''me'') False
     [\<lparr>name = js ''M'' @ 0xE9 # js ''xico'', region = js ''Americas''\<rparr>,
      \<lparr>name = js ''Monaco'', region = js ''Europe''\<rparr>] =
     [\<lparr>name = js ''M'' @ 0xE9 # js ''xico'', region = js ''Americas''\<rparr>] \<and>
   filteredCountries unicode (js ''europe'') True
     [\<lparr>name = js ''M'' @ 0xE9 # js ''xico'', region = js ''Americas''\<rparr>,
      \<lparr>name = js ''Monaco'', region = js ''Europe''\<rparr>] =
     [\<lparr>name = js ''Monaco'', region = js ''Europe''\<rparr>] \<and>
   filteredCountries unicode (js ''all'') True
     [\<lparr>name = js ''M'' @ 0xE9 # js ''xico'', region = js ''Americas''\<rparr>,
      \<lparr>name = js ''Monaco'', region = js ''Europe''\<rparr>] =
     [\<lparr>name = js ''M'' @ 0xE9 # js ''xico'', region = js ''Americas''\<rparr>,
      \<lparr>name = js ''Monaco'', region = js ''Europe''\<rparr>]"
proof -
  have s1: "startsWith (js ''mexico'') (js ''me'')" by (simp add: js_def)
  have s2: "\<not> startsWith (js ''monaco'') (js ''me'')" by (simp add: js_def)
  have ne: "js ''europe'' \<noteq> js ''all''" by (simp add: js_def)
  have am: "js ''americas'' \<noteq> js ''europe''" by (simp add: js_def)
  show ?thesis
    by (simp add: filteredCountries_search filteredCountries_region normalize_Mexico
        normalize_Monaco normalize_me normalize_Americas normalize_Europe normalize_europe
        s1 s2 ne am)
qed

text \<open>
  Claim C4 (lookup).  As stated the claim fails: of two records with the same name the
  lookup of that name returns the first, so it does not return the second record when
  asked for the second record's name.
\<close>

theorem findCountryByName_duplicate:
  "findCountryByName
     [\<lparr>name = js ''Congo'', region = js ''Africa''\<rparr>, \<lparr>name = js ''Congo'', region = js ''Europe''\<rparr>]
     (name \<lparr>name = js ''Congo'', region = js ''Europe''\<rparr>)
   \<noteq> Found \<lparr>name = js ''Congo'', region = js ''Europe''\<rparr>"
  by (simp add: findCountryByName_def js_def)

text \<open>
  Claim C4, amended.  \<open>findCountryByName\<close> compares the \<open>name\<close> field with the given
  string by plain equality and returns the first record of the list that has this name;
  it returns \<open>r\<close> for the name of \<open>r\<close> whenever no record before \<open>r\<close> has the same
  name, in particular for every record of a list whose names are pairwise distinct.
\<close>

theorem findCountryByName_first_match:
  "findCountryByName records n =
     (case filter (\<lambda>country. name country = n) records of
        [] \<Rightarrow> Undefined | country # _ \<Rightarrow> Found country) \<and>
   ((\<forall>country\<in>set pre. name country \<noteq> name r) \<longrightarrow>
      findCountryByName (pre @ r # post) (name r) = Found r) \<and>
   (r \<in> set records \<and> distinct (map name records) \<longrightarrow>
      findCountryByName records (name r) = Found r)"
  unfolding findCountryByName_def
  using array_find_filter [of "\<lambda>country. name country = n" records]
    array_find_first [of pre "\<lambda>country. name country = name r" r post]
    array_find_distinct [of r records name]
  by blast

theorem findCountryByName_first_match_witness:
  "list_all (\<lambda>country. name country \<noteq> name \<lparr>name = js ''Congo'', region = js ''Africa''\<rparr>)
     [\<lparr>name = js ''Chad'', region = js ''Africa''\<rparr>] \<and>
   findCountryByName
     ([\<lparr>name = js ''Chad'', region = js ''Africa''\<rparr>] @ \<lparr>name = js ''Congo'', region = js ''Africa''\<rparr> #
      [\<lparr>name = js ''Congo'', region = js ''Europe''\<rparr>])
     (name \<lparr>name = js ''Congo'', region = js ''Africa''\<rparr>) =
     Found \<lparr>name = js ''Congo'', region = js ''Africa''\<rparr> \<and>
   \<lparr>name = js ''Congo'', region = js ''Africa''\<rparr> \<in>
     set [\<lparr>name = js ''Chad'', region = js ''Africa''\<rparr>, \<lparr>name = js ''Congo'', region = js ''Africa''\<rparr>] \<and>
   distinct (map name
     [\<lparr>name = js ''Chad'', region = js ''Africa''\<rparr>, \<lparr>name = js ''Congo'', region = js ''Africa''\<rparr>]) \<and>
   findCountryByName
     [\<lparr>name = js ''Chad'', region = js ''Africa''\<rparr>, \<lparr>name = js ''Congo'', region = js ''Africa''\<rparr>]
     (name \<lparr>name = js ''Congo'', region = js ''Africa''\<rparr>) =
     Found \<lparr>name = js ''Congo'', region = js ''Africa''\<rparr>"
  using findCountryByName_first_match
    [of "[\<lparr>name = js ''Chad'', region = js ''Africa''\<rparr>, \<lparr>name = js ''Congo'', region = js ''Africa''\<rparr>]"
        "js ''Congo''"
        "[\<lparr>name = js ''Chad'', region = js ''Africa''\<rparr>]"
        "\<lparr>name = js ''Congo'', region = js ''Africa''\<rparr>"
        "[\<lparr>name = js ''Congo'', region = js ''Europe''\<rparr>]"]
  by (simp add: js_def)

text \<open>
  Claim C5 (prefix containment).  As stated the claim fails, in two ways.  The name
  lamed, patah, combining grapheme joiner, hiriq (U+05DC U+05B7 U+034F U+05B4)
  normalises to lamed, patah, hiriq, because U+034F lies in the deleted range.  Used as
  the criterion, this string is normalised again, and now the two points are reordered
  by their combining classes (14 before 17), so the criterion is no prefix of the
  normalised name and the record is filtered out.  In the name D834 U+0301 DD5E the
  deleted accent stands between two unpaired surrogates; the normalised name is the
  pair D834 DD5E, the code point U+1D15E, which the second normalisation decomposes.
\<close>

theorem prefix_containment_joiner:
  "3 \<le> length (normalize_str unicode [0x05DC, 0x05B7, 0x034F, 0x05B4]) \<and>
   \<lparr>name = [0x05DC, 0x05B7, 0x034F, 0x05B4], region = js ''Asia''\<rparr> \<notin>
     set (filteredCountries unicode (take 3 (normalize_str unicode [0x05DC, 0x05B7, 0x034F, 0x05B4]))
            False [\<lparr>name = [0x05DC, 0x05B7, 0x034F, 0x05B4], region = js ''Asia''\<rparr>]) \<and>
   2 \<le> length (normalize_str unicode [0xD834, 0x0301, 0xDD5E]) \<and>
   \<lparr>name = [0xD834, 0x0301, 0xDD5E], region = js ''Asia''\<rparr> \<notin>
     set (filteredCountries unicode (take 2 (normalize_str unicode [0xD834, 0x0301, 0xDD5E]))
            False [\<lparr>name = [0xD834, 0x0301, 0xDD5E], region = js ''Asia''\<rparr>])"
  by (simp add: filteredCountries_search normalize_joined normalize_unjoined normalize_split
      normalize_paired)

text \<open>
  Claim C5, amended.  On every engine that follows the Unicode Standard, for every
  record whose name is well formed (has no unpaired surrogate) and either contains no
  U+034F or keeps no mark (has no code point of combining class other than 0 outside
  U+0300 to U+036F), and for every \<open>k\<close> up to the length of the normalised name, the
  search for the first \<open>k\<close> code units of the normalised name in the singleton list
  keeps the record.
\<close>

theorem prefix_containment_wellFormed:
  assumes "unicodeEngine T P" and "wellFormed (name r)"
    and "0x034F \<notin> set (name r) \<or> keptMarks T (name r) = []"
    and "k \<le> length (normalize_str P (name r))"
  shows "r \<in> set (filteredCountries P (take k (normalize_str P (name r))) False [r])"
proof -
  let ?y = "normalize_str P (name r)"
  from assms(1) have T: "canonicalData T" and N: "normalizeNFD P = NFD T"
    and L: "lowerCaseFacts T (toLowerCase P)"
    by (simp_all add: unicodeEngine_def)
  note y = normalize_str_steps [OF assms(1,2,3)]
  from T y(1,2) have "NFD T (take k ?y) = take k ?y"
    by (rule NFD_take)
  moreover from y(3) have "\<forall>u\<in>set ?y. \<not> combiningMark u"
    by (simp add: stripCombiningMarks_def filter_id_conv)
  then have "\<forall>u\<in>set (take k ?y). \<not> combiningMark u"
    by (auto dest: in_set_takeD)
  then have "stripCombiningMarks (take k ?y) = take k ?y"
    by (simp add: stripCombiningMarks_def)
  moreover from L y(4) have "toLowerCase P (take k ?y) = take k ?y"
    by (rule lowerCaseFacts_take)
  ultimately have "normalize_str P (take k ?y) = take k ?y"
    by (simp add: normalize_str_def N)
  then show ?thesis
    by (simp add: filteredCountries_search startsWith_take)
qed

theorem prefix_containment_wellFormed_witness:
  "wellFormed (name \<lparr>name = js ''M'' @ 0xE9 # js ''xico'', region = js ''Americas''\<rparr>) \<and>
   0x034F \<notin> set (name \<lparr>name = js ''M'' @ 0xE9 # js ''xico'', region = js ''Americas''\<rparr>) \<and>
   2 \<le> length (normalize_str unicode
                  (name \<lparr>name = js ''M'' @ 0xE9 # js ''xico'', region = js ''Americas''\<rparr>)) \<and>
   \<lparr>name = js ''M'' @ 0xE9 # js ''xico'', region = js ''Americas''\<rparr> \<in>
     set (filteredCountries unicode (js ''me'') False
            [\<lparr>name = js ''M'' @ 0xE9 # js ''xico'', region = js ''Americas''\<rparr>])"
proof -
  have w: "wellFormed (name \<lparr>name = js ''M'' @ 0xE9 # js ''xico'', region = js ''Americas''\<rparr>)"
    by (simp add: wellFormed_def js_def leadingSurrogate_def trailingSurrogate_def)
  have j: "0x034F \<notin> set (name \<lparr>name = js ''M'' @ 0xE9 # js ''xico'', region = js ''Americas''\<rparr>)"
    by (simp add: js_def)
  then have j': "0x034F \<notin> set (name \<lparr>name = js ''M'' @ 0xE9 # js ''xico'', region = js ''Americas''\<rparr>) \<or>
      keptMarks unicodeTables
        (name \<lparr>name = js ''M'' @ 0xE9 # js ''xico'', region = js ''Americas''\<rparr>) = []"
    by (rule disjI1)
  have l: "2 \<le> length (normalize_str unicode
                  (name \<lparr>name = js ''M'' @ 0xE9 # js ''xico'', region = js ''Americas''\<rparr>))"
    by (simp add: normalize_Mexico) (simp add: js_def)
  have t: "take 2 (js ''mexico'') = js ''me''" by (simp add: js_def)
  from prefix_containment_wellFormed [OF unicodeEngine_unicode w j' l] w j l t show ?thesis
    by (simp add: normalize_Mexico)
qed

text \<open>
  Claim C6 (idempotence).  As stated the claim fails on the same two strings.  In the
  first, the first normalisation deletes the combining grapheme joiner that kept patah
  before hiriq, and the second normalisation swaps the two points.  In the second, the
  first normalisation deletes the accent between two unpaired surrogates, and the
  second normalisation decomposes the code point U+1D15E that they now form.
\<close>

theorem normalize_not_idempotent:
  "normalize_str unicode (normalize_str unicode [0x05DC, 0x05B7, 0x034F, 0x05B4]) \<noteq>
     normalize_str unicode [0x05DC, 0x05B7, 0x034F, 0x05B4] \<and>
   normalize_str unicode (normalize_str unicode [0xD834, 0x0301, 0xDD5E]) \<noteq>
     normalize_str unicode [0xD834, 0x0301, 0xDD5E]"
  by (simp add: normalize_joined normalize_unjoined normalize_split normalize_paired)

text \<open>
  Claim C6, amended.  On every engine that follows the Unicode Standard, \<open>normalize\<close>
  is idempotent on every string that is well formed (has no unpaired surrogate) and
  either contains no U+034F or keeps no mark (has no code point of combining class other
  than 0 outside U+0300 to U+036F).
\<close>

theorem normalize_idempotent_wellFormed:
  assumes "unicodeEngine T P" and "wellFormed s"
    and "0x034F \<notin> set s \<or> keptMarks T s = []"
  shows "normalize_str P (normalize_str P s) = normalize_str P s"
proof -
  from assms(1) have N: "normalizeNFD P = NFD T"
    by (simp add: unicodeEngine_def)
  note y = normalize_str_steps [OF assms]
  have "normalize_str P (normalize_str P s) =
      toLowerCase P (stripCombiningMarks (NFD T (normalize_str P s)))"
    by (simp add: normalize_str_def N)
  also have "\<dots> = normalize_str P s"
    by (simp only: y(2,3,4))
  finally show ?thesis .
qed

theorem normalize_idempotent_wellFormed_witness:
  "wellFormed (js ''M'' @ 0xE9 # js ''xico'') \<and>
   0x034F \<notin> set (js ''M'' @ 0xE9 # js ''xico'') \<and>
   normalize_str unicode (js ''M'' @ 0xE9 # js ''xico'') = js ''mexico'' \<and>
   normalize_str unicode (js ''mexico'') = js ''mexico'' \<and>
   wellFormed [0x61, 0x034F, 0x62] \<and>
   keptMarks unicodeTables [0x61, 0x034F, 0x62] = [] \<and>
   normalize_str unicode [0x61, 0x034F, 0x62] = [0x61, 0x62] \<and>
   normalize_str unicode [0x61, 0x62] = [0x61, 0x62]"
proof -
  have w: "wellFormed (js ''M'' @ 0xE9 # js ''xico'')"
    by (simp add: wellFormed_def js_def leadingSurrogate_def trailingSurrogate_def)
  have j: "0x034F \<notin> set (js ''M'' @ 0xE9 # js ''xico'')"
    by (simp add: js_def)
  then have j': "0x034F \<notin> set (js ''M'' @ 0xE9 # js ''xico'') \<or>
      keptMarks unicodeTables (js ''M'' @ 0xE9 # js ''xico'') = []"
    by (rule disjI1)
  have w2: "wellFormed [0x61, 0x034F, 0x62]"
    by (simp add: wellFormed_def leadingSurrogate_def trailingSurrogate_def)
  have k2: "keptMarks unicodeTables [0x61, 0x034F, 0x62] = []"
    by (simp add: keptMarks_def unicodeTables_def leadingSurrogate_def decomposition_unit
        ccc_latin1 ccc_joiner)
  then have k2': "0x034F \<notin> set [0x61, 0x034F, 0x62] \<or>
      keptMarks unicodeTables [0x61, 0x034F, 0x62] = []"
    by (rule disjI2)
  have n2: "normalize_str unicode [0x61, 0x034F, 0x62] = [0x61, 0x62]"
    by (simp add: normalize_eval ccc_latin1 ccc_joiner)
  from normalize_idempotent_wellFormed [OF unicodeEngine_unicode w j']
    normalize_idempotent_wellFormed [OF unicodeEngine_unicode w2 k2'] w j w2 k2 n2
  show ?thesis
    by (simp add: normalize_Mexico)
qed

text \<open>
  Claim C7 (not found).  When no record of the list has the given name, the lookup
  returns \<open>undefined\<close>, and its second variant returns \<open>null\<close>.  Both are total
  functions of the list and the name: there is no branch that throws.
\<close>

theorem findCountryByName_not_found:
  "\<forall>country\<in>set records. name country \<noteq> n \<Longrightarrow>
     findCountryByName records n = Undefined \<and> findCountryByName_null records n = Null"
  by (simp add: findCountryByName_def findCountryByName_null_def array_find_none)

theorem findCountryByName_not_found_witness:
  "list_all (\<lambda>country. name country \<noteq> js ''Nonexistent'')
     [\<lparr>name = js ''M'' @ 0xE9 # js ''xico'', region = js ''Americas''\<rparr>,
      \<lparr>name = js ''Monaco'', region = js ''Europe''\<rparr>] \<and>
   findCountryByName [\<lparr>name = js ''M'' @ 0xE9 # js ''xico'', region = js ''Americas''\<rparr>,
                      \<lparr>name = js ''Monaco'', region = js ''Europe''\<rparr>] (js ''Nonexistent'') = Undefined \<and>
   findCountryByName_null [\<lparr>name = js ''M'' @ 0xE9 # js ''xico'', region = js ''Americas''\<rparr>,
                      \<lparr>name = js ''Monaco'', region = js ''Europe''\<rparr>] (js ''Nonexistent'') = Null"
proof -
  have h: "\<forall>country\<in>set [\<lparr>name = js ''M'' @ 0xE9 # js ''xico'', region = js ''Americas''\<rparr>,
                    \<lparr>name = js ''Monaco'', region = js ''Europe''\<rparr>].
      name country \<noteq> js ''Nonexistent''"
    by (simp add: js_def)
  from findCountryByName_not_found [OF h] h show ?thesis by (simp add: list_all_iff)
qed

text \<open>
  Claim C8 (search box).  For every typed value, every code unit of the string handed to
  \<open>updateGrid\<close> is an ASCII letter or white space; the listener runs \<open>updateGrid\<close> in
  search mode on that string, after showing the toast exactly when the typed value has a
  code unit outside the class, which is exactly when the filtered value is shorter than
  the typed one.
\<close>

theorem search_input_sanitized:
  "(\<forall>c\<in>set (dataOfCountryInput originalValue). allowedInput c) \<and>
   searchInputListener P resp originalValue pg =
     updateGrid P resp (dataOfCountryInput originalValue) False
       ((if \<exists>c\<in>set originalValue. \<not> allowedInput c
         then showToast ''Please type in English only.'' pg else pg)
        \<lparr>searchInput := filteredValue originalValue\<rparr>) \<and>
   toasts (searchInputListener P resp originalValue pg) =
     (if length (filteredValue originalValue) < length originalValue
      then toasts pg @ [''Please type in English only.''] else toasts pg)"
proof -
  have "set (dataOfCountryInput originalValue) \<subseteq> set (filteredValue originalValue)"
    by (simp add: dataOfCountryInput_def set_trim)
  then have a: "\<forall>c\<in>set (dataOfCountryInput originalValue). allowedInput c"
    by (auto simp: filteredValue_def)
  have b: "searchInputListener P resp originalValue pg =
     updateGrid P resp (dataOfCountryInput originalValue) False
       ((if \<exists>c\<in>set originalValue. \<not> allowedInput c
         then showToast ''Please type in English only.'' pg else pg)
        \<lparr>searchInput := filteredValue originalValue\<rparr>)"
    by (simp add: searchInputListener_def Let_def filteredValue_changed)
  have c: "toasts (searchInputListener P resp originalValue pg) =
     (if length (filteredValue originalValue) < length originalValue
      then toasts pg @ [''Please type in English only.''] else toasts pg)"
    by (simp add: b updateGrid_fields filteredValue_shorter showToast_def)
  from a b c show ?thesis by blast
qed

theorem search_input_sanitized_witness:
  "list_all allowedInput (dataOfCountryInput (js '' Me9x'')) \<and>
   dataOfCountryInput (js '' Me9x'') = js ''Mex'' \<and>
   toasts (searchInputListener unicode NoResponse (js '' Me9x'')
             (\<lparr>grid = [], searchInput = js '' Me'', toasts = [], console = []\<rparr> :: country page)) =
     [''Please type in English only.''] \<and>
   toasts (searchInputListener unicode NoResponse (js '' Mex'')
             (\<lparr>grid = [], searchInput = js '' Me'', toasts = [], console = []\<rparr> :: country page)) = []"
proof -
  have f: "filteredValue (js '' Me9x'') = js '' Mex''"
    by (simp add: filteredValue_def js_def allowedInput_def asciiLetter_def whiteSpace_def)
  have g: "filteredValue (js '' Mex'') = js '' Mex''"
    by (simp add: filteredValue_def js_def allowedInput_def asciiLetter_def whiteSpace_def)
  have t: "trim (js '' Mex'') = js ''Mex''"
    by (simp add: trim_def js_def whiteSpace_def)
  have l: "length (js '' Mex'') < length (js '' Me9x'')" by (simp add: js_def)
  note w1 = search_input_sanitized [of "js '' Me9x''" unicode NoResponse
      "\<lparr>grid = [], searchInput = js '' Me'', toasts = [], console = []\<rparr> :: country page"]
  note w2 = search_input_sanitized [of "js '' Mex''" unicode NoResponse
      "\<lparr>grid = [], searchInput = js '' Me'', toasts = [], console = []\<rparr> :: country page"]
  from w1 have a: "\<forall>c\<in>set (dataOfCountryInput (js '' Me9x'')). allowedInput c"
    by blast
  have b: "dataOfCountryInput (js '' Me9x'') = js ''Mex''"
    by (simp add: dataOfCountryInput_def f t)
  from w1 have "toasts (searchInputListener unicode NoResponse (js '' Me9x'')
             (\<lparr>grid = [], searchInput = js '' Me'', toasts = [], console = []\<rparr> :: country page)) =
     (if length (filteredValue (js '' Me9x'')) < length (js '' Me9x'')
      then toasts (\<lparr>grid = [], searchInput = js '' Me'', toasts = [], console = []\<rparr> :: country page) @
           [''Please type in English only.'']
      else toasts (\<lparr>grid = [], searchInput = js '' Me'', toasts = [], console = []\<rparr> :: country page))"
    by blast
  then have c: "toasts (searchInputListener unicode NoResponse (js '' Me9x'')
             (\<lparr>grid = [], searchInput = js '' Me'', toasts = [], console = []\<rparr> :: country page)) =
     [''Please type in English only.'']"
    by (simp add: f l)
  from w2 have "toasts (searchInputListener unicode NoResponse (js '' Mex'')
             (\<lparr>grid = [], searchInput = js '' Me'', toasts = [], console = []\<rparr> :: country page)) =
     (if length (filteredValue (js '' Mex'')) < length (js '' Mex'')
      then toasts (\<lparr>grid = [], searchInput = js '' Me'', toasts = [], console = []\<rparr> :: country page) @
           [''Please type in English only.'']
      else toasts (\<lparr>grid = [], searchInput = js '' Me'', toasts = [], console = []\<rparr> :: country page))"
    by blast
  then have d: "toasts (searchInputListener unicode NoResponse (js '' Mex'')
             (\<lparr>grid = [], searchInput = js '' Me'', toasts = [], console = []\<rparr> :: country page)) = []"
    by (simp add: g)
  from a b c d show ?thesis by (simp add: list_all_iff)
qed

text \<open>
  Claim C9 (the bypass is exact).  For every region criterion other than the exact
  string \<open>'all'\<close>, the callback accepts a record exactly when its normalised region
  equals the normalised criterion, so the result holds those records only.
\<close>

theorem all_bypass_is_exact:
  "filterValue \<noteq> js ''all'' \<Longrightarrow>
     filterCallback P filterValue True country =
       (normalize_str P (region country) = normalize_str P filterValue) \<and>
     (country \<in> set (filteredCountries P filterValue True countries) \<longleftrightarrow>
        country \<in> set countries \<and> normalize_str P (region country) = normalize_str P filterValue)"
  by (auto simp: filteredCountries_region filterCallback_def)

theorem all_bypass_is_exact_witness:
  "js ''All'' \<noteq> js ''all'' \<and>
   \<not> filterCallback unicode (js ''All'') True \<lparr>name = js ''Monaco'', region = js ''Europe''\<rparr> \<and>
   \<lparr>name = js ''Monaco'', region = js ''Europe''\<rparr> \<notin>
     set (filteredCountries unicode (js ''All'') True [\<lparr>name = js ''Monaco'', region = js ''Europe''\<rparr>]) \<and>
   filterCallback unicode (js ''all'') True \<lparr>name = js ''Monaco'', region = js ''Europe''\<rparr>"
proof -
  have ne: "js ''All'' \<noteq> js ''all''" by (simp add: js_def)
  have eu: "js ''europe'' \<noteq> js ''all''" by (simp add: js_def)
  have al: "filterCallback unicode (js ''all'') True \<lparr>name = js ''Monaco'', region = js ''Europe''\<rparr>"
    by (simp add: filterCallback_def)
  from all_bypass_is_exact [OF ne, of unicode "\<lparr>name = js ''Monaco'', region = js ''Europe''\<rparr>"
      "[\<lparr>name = js ''Monaco'', region = js ''Europe''\<rparr>]"] ne eu al
  show ?thesis by (simp add: normalize_Europe normalize_All)
qed

text \<open>
  Claim C10 (fetch failure).  When \<open>fetchData\<close> throws, \<open>updateGrid\<close> changes nothing
  but the console, which receives the line of \<open>fetchData\<close> and the line of the
  \<open>catch\<close> block; the grid keeps its children.
\<close>

theorem updateGrid_fetch_failure:
  "fst (fetchData resp (console pg)) = Inl error \<Longrightarrow>
     updateGrid P resp filterValue isRegionFilter pg =
       pg\<lparr>console := console pg @ [ConsoleError ''Error fetching data:'' error,
                                      ConsoleError ''Error updating grid:'' error]\<rparr> \<and>
     grid (updateGrid P resp filterValue isRegionFilter pg) = grid pg"
  by (cases resp) (auto simp: updateGrid_def split: if_splits option.splits)

theorem updateGrid_fetch_failure_witness:
  "fst (fetchData (NoResponse :: country response)
          (console \<lparr>grid = [CountryElement \<lparr>name = js ''Monaco'', region = js ''Europe''\<rparr> True],
                    searchInput = [], toasts = [], console = []\<rparr>)) = Inl FetchRejected \<and>
   grid (updateGrid unicode NoResponse (js ''europe'') True
           \<lparr>grid = [CountryElement \<lparr>name = js ''Monaco'', region = js ''Europe''\<rparr> True],
            searchInput = [], toasts = [], console = []\<rparr>) =
     [CountryElement \<lparr>name = js ''Monaco'', region = js ''Europe''\<rparr> True] \<and>
   console (updateGrid unicode NoResponse (js ''europe'') True
           \<lparr>grid = [CountryElement \<lparr>name = js ''Monaco'', region = js ''Europe''\<rparr> True],
            searchInput = [], toasts = [], console = []\<rparr>) =
     [ConsoleError ''Error fetching data:'' FetchRejected,
      ConsoleError ''Error updating grid:'' FetchRejected]"
proof -
  have h: "fst (fetchData (NoResponse :: country response)
          (console \<lparr>grid = [CountryElement \<lparr>name = js ''Monaco'', region = js ''Europe''\<rparr> True],
                    searchInput = [], toasts = [], console = []\<rparr>)) = Inl FetchRejected"
    by simp
  from updateGrid_fetch_failure [OF h, of unicode "js ''europe''" True] h show ?thesis
    by simp
qed

end
